theory Spec2Isabelle
  imports Main "HOL-Library.Sublist" "HOL-Library.AList" "HOL-Library.Multiset" "HOL-Library.FSet"
begin

section \<open>Python strings, integers and regular expressions\<close>

text \<open>
  The scripts work on PDF field names with three string operations: the substring test
  \<^verbatim>\<open>sub in s\<close>, \<^verbatim>\<open>re.search\<close> with a handful of fixed patterns, and
  \<^verbatim>\<open>int(m.group(k))\<close> on a captured run of digits. Strings are modelled as lists of
  8-bit characters, so \<^verbatim>\<open>\d\<close> is the ASCII digits and \<^verbatim>\<open>lower()\<close> is ASCII lower-casing.
  Python integers are unbounded and are modelled by \<open>int\<close>.
\<close>

primrec contains :: "string \<Rightarrow> string \<Rightarrow> bool" where
  "contains sub [] = (sub = [])"
| "contains sub (c # cs) = (prefix sub (c # cs) \<or> contains sub cs)"

definition is_digit :: "char \<Rightarrow> bool" where
  "is_digit c = (c \<in> set ''0123456789'')"

definition digit_val :: "char \<Rightarrow> int" where
  "digit_val c = int (of_char c) - 48"

definition py_int :: "string \<Rightarrow> int" where
  "py_int ds = foldl (\<lambda>a c. 10 * a + digit_val c) 0 ds"

fun str_nat :: "nat \<Rightarrow> string" where
  "str_nat n =
     (if n < 10 then [''0123456789'' ! n]
      else str_nat (n div 10) @ [''0123456789'' ! (n mod 10)])"

declare str_nat.simps [simp del]

definition py_str :: "int \<Rightarrow> string" where
  "py_str i = (if i < 0 then CHR ''-'' # str_nat (nat (- i)) else str_nat (nat i))"

text \<open>
  The fragment of Python's \<^verbatim>\<open>re\<close> syntax that the scripts use: literal text, \<^verbatim>\<open>\d+\<close>,
  \<^verbatim>\<open>.*\<close> (which stops at a newline), a character class, an optional group \<^verbatim>\<open>(...)?\<close>,
  and the parentheses of a capturing group. The matcher is the backtracking one of
  \<^verbatim>\<open>re\<close>: greedy operators try the longest alternative first and give characters back
  when the rest of the pattern fails. The second argument of \<open>rmatch\<close> remembers where
  the capturing group that is open started.
\<close>

datatype rx = Lit string | Digits | DotStar | Class "char list" | Opt "rx list" | GOpen | GClose

primrec first_some :: "('a \<Rightarrow> 'b option) \<Rightarrow> 'a list \<Rightarrow> 'b option" where
  "first_some f [] = None"
| "first_some f (x # xs) = (case f x of Some y \<Rightarrow> Some y | None \<Rightarrow> first_some f xs)"

fun rmatch :: "rx list \<Rightarrow> string option \<Rightarrow> string \<Rightarrow> string list option" where
  "rmatch [] g s = Some []"
| "rmatch (Lit l # ps) g s = (if prefix l s then rmatch ps g (drop (length l) s) else None)"
| "rmatch (Class cs # ps) g s =
     (case s of [] \<Rightarrow> None | c # s' \<Rightarrow> if c \<in> set cs then rmatch ps g s' else None)"
| "rmatch (Digits # ps) g s =
     first_some (\<lambda>n. rmatch ps g (drop n s)) (rev [1..<Suc (length (takeWhile is_digit s))])"
| "rmatch (DotStar # ps) g s =
     first_some (\<lambda>n. rmatch ps g (drop n s))
       (rev [0..<Suc (length (takeWhile (\<lambda>c. c \<noteq> CHR 0x0A) s))])"
| "rmatch (Opt qs # ps) g s =
     (case rmatch (qs @ ps) g s of Some r \<Rightarrow> Some r | None \<Rightarrow> rmatch ps g s)"
| "rmatch (GOpen # ps) g s = rmatch ps (Some s) s"
| "rmatch (GClose # ps) g s =
     (case g of
        None \<Rightarrow> rmatch ps None s
      | Some s0 \<Rightarrow> map_option ((#) (take (length s0 - length s) s0)) (rmatch ps None s))"

text \<open>\<^verbatim>\<open>re.search\<close>: the match at the leftmost position that has one; the captured groups.\<close>

primrec re_search :: "rx list \<Rightarrow> string \<Rightarrow> string list option" where
  "re_search p [] = rmatch p None []"
| "re_search p (c # cs) =
     (case rmatch p None (c # cs) of Some gs \<Rightarrow> Some gs | None \<Rightarrow> re_search p cs)"

text \<open>
  \<^verbatim>\<open>m.group(k)\<close> for \<open>k \<ge> 1\<close>. Every pattern below has the groups it is asked for, so the
  \<open>None\<close> of a missing group (Python's IndexError) is never reached from the scripts.
\<close>

definition group :: "string list \<Rightarrow> nat \<Rightarrow> string option" where
  "group gs k = (if 1 \<le> k \<and> k \<le> length gs then Some (gs ! (k - 1)) else None)"

text \<open>\<^verbatim>\<open>m = re.search(p, s)\<close> followed by \<^verbatim>\<open>m.group(k)\<close>, or by
  \<^verbatim>\<open>int(m.group(k))\<close>, under \<^verbatim>\<open>if m:\<close>.\<close>

definition search_group :: "rx list \<Rightarrow> nat \<Rightarrow> string \<Rightarrow> string option" where
  "search_group p k s = (case re_search p s of None \<Rightarrow> None | Some gs \<Rightarrow> group gs k)"

definition search_int :: "rx list \<Rightarrow> nat \<Rightarrow> string \<Rightarrow> int option" where
  "search_int p k s = map_option py_int (search_group p k s)"

definition textfield_re :: "rx list" where
  "textfield_re = [Lit ''TextField11['', GOpen, Digits, GClose, Lit '']'']"

definition area_re :: "rx list" where
  "area_re = [Lit ''#area['', GOpen, Digits, GClose, Lit '']'']"

section \<open>Section 16: the field records\<close>

text \<open>
  One entry of \<^verbatim>\<open>data['fields']\<close>. The Section 16 scripts read \<^verbatim>\<open>field['name']\<close>
  unconditionally and the other keys with \<^verbatim>\<open>get\<close>, so the name is always there and
  the rest is optional.
\<close>

record pdf_field =
  f_name :: string
  f_label :: "string option"
  f_type :: "string option"
  f_page :: "int option"

section \<open>verify\_field\_pattern.py\<close>

text \<open>The index ranges of \<^verbatim>\<open>TextField11[X]\<close>; persons are numbered from 1 and
  \<open>0\<close> is the script's marker for an unknown person.\<close>

definition person_of_index :: "int \<Rightarrow> int" where
  "person_of_index index =
     (if 0 \<le> index \<and> index \<le> 10 then 1
      else if 11 \<le> index \<and> index \<le> 21 then 2
      else if 22 \<le> index \<and> index \<le> 32 then 3
      else 0)"

definition section16_3_fields :: "pdf_field list \<Rightarrow> pdf_field list" where
  "section16_3_fields fs = filter (\<lambda>f. contains ''Section16_3'' (f_name f)) fs"

text \<open>The loop body. The state is the \<^verbatim>\<open>defaultdict(list)\<close> \<^verbatim>\<open>textfield_pattern\<close>, a
  function that gives the empty list for a person nothing was appended to, and the list
  \<^verbatim>\<open>other_fields\<close>.\<close>

definition textfield_step ::
  "pdf_field \<Rightarrow> (int \<Rightarrow> (int \<times> pdf_field) list) \<times> pdf_field list
     \<Rightarrow> (int \<Rightarrow> (int \<times> pdf_field) list) \<times> pdf_field list" where
  "textfield_step field st =
     (case search_int textfield_re 1 (f_name field) of
        Some index \<Rightarrow>
          (let person = person_of_index index
           in ((fst st)(person := fst st person @ [(index, field)]), snd st))
      | None \<Rightarrow> (fst st, snd st @ [field]))"

definition textfield_loop ::
  "pdf_field list \<Rightarrow> (int \<Rightarrow> (int \<times> pdf_field) list) \<times> pdf_field list" where
  "textfield_loop fs = fold textfield_step fs (\<lambda>_. [], [])"

definition textfield_pattern :: "pdf_field list \<Rightarrow> int \<Rightarrow> (int \<times> pdf_field) list" where
  "textfield_pattern fs = fst (textfield_loop (section16_3_fields fs))"

definition other_fields :: "pdf_field list \<Rightarrow> pdf_field list" where
  "other_fields fs = snd (textfield_loop (section16_3_fields fs))"

definition suffix_fields :: "pdf_field list \<Rightarrow> pdf_field list" where
  "suffix_fields fs = filter (\<lambda>f. contains ''suffix['' (f_name f)) (section16_3_fields fs)"

definition phone_fields :: "pdf_field list \<Rightarrow> pdf_field list" where
  "phone_fields fs = filter (\<lambda>f. contains ''p3-t68['' (f_name f)) (section16_3_fields fs)"

definition area_fields :: "pdf_field list \<Rightarrow> pdf_field list" where
  "area_fields fs = filter (\<lambda>f. contains ''#area['' (f_name f)) (section16_3_fields fs)"

text \<open>\<^verbatim>\<open>area_counts\<close> is a \<^verbatim>\<open>defaultdict(int)\<close>, kept as an association list in insertion
  order.\<close>

definition area_count_step :: "pdf_field \<Rightarrow> (int \<times> int) list \<Rightarrow> (int \<times> int) list" where
  "area_count_step field counts =
     (case search_int area_re 1 (f_name field) of
        Some a \<Rightarrow> AList.update a ((case map_of counts a of None \<Rightarrow> 0 | Some c \<Rightarrow> c) + 1) counts
      | None \<Rightarrow> counts)"

definition area_counts :: "pdf_field list \<Rightarrow> (int \<times> int) list" where
  "area_counts fs = fold area_count_step (area_fields fs) []"

definition counts_get :: "(int \<times> int) list \<Rightarrow> int \<Rightarrow> int" where
  "counts_get counts k = (case map_of counts k of None \<Rightarrow> 0 | Some c \<Rightarrow> c)"

definition remaining_fields :: "pdf_field list \<Rightarrow> int" where
  "remaining_fields fs =
     int (length (other_fields fs)) - int (length (suffix_fields fs))
       - int (length (phone_fields fs)) - sum_list (map snd (area_counts fs))"

text \<open>The three \<^verbatim>\<open>personK_total\<close> of the script: person \<open>k\<close> is 1, 2 or 3 and its area
  is \<open>k - 1\<close>.\<close>

definition person_total :: "pdf_field list \<Rightarrow> int \<Rightarrow> int" where
  "person_total fs k =
     int (length (textfield_pattern fs k)) + counts_get (area_counts fs) (k - 1)
       + 1 + 2 + remaining_fields fs div 3"

section \<open>calculate\_field\_distribution.py\<close>

text \<open>A \<^verbatim>\<open>defaultdict(list)\<close> as an association list in insertion order, with
  \<^verbatim>\<open>d[k].append(v)\<close> and the read \<^verbatim>\<open>d[k]\<close> (or \<^verbatim>\<open>d.get(k, [])\<close>).\<close>

definition dd_get :: "('k \<times> 'v list) list \<Rightarrow> 'k \<Rightarrow> 'v list" where
  "dd_get d k = (case map_of d k of None \<Rightarrow> [] | Some vs \<Rightarrow> vs)"

definition dd_append :: "'k \<Rightarrow> 'v \<Rightarrow> ('k \<times> 'v list) list \<Rightarrow> ('k \<times> 'v list) list" where
  "dd_append k v d = AList.update k (dd_get d k @ [v]) d"

definition cfd_section16_1_fields :: "pdf_field list \<Rightarrow> pdf_field list" where
  "cfd_section16_1_fields fs = filter (\<lambda>f. contains ''Section16_1'' (f_name f)) fs"

definition cfd_section16_3_fields :: "pdf_field list \<Rightarrow> pdf_field list" where
  "cfd_section16_3_fields fs =
     filter (\<lambda>f. \<not> contains ''Section16_1'' (f_name f) \<and> contains ''Section16_3'' (f_name f)) fs"

definition area_step ::
  "pdf_field \<Rightarrow> (int \<times> pdf_field list) list \<times> pdf_field list
     \<Rightarrow> (int \<times> pdf_field list) list \<times> pdf_field list" where
  "area_step field st =
     (case search_int area_re 1 (f_name field) of
        Some area \<Rightarrow> (dd_append area field (fst st), snd st)
      | None \<Rightarrow> (fst st, snd st @ [field]))"

definition area_loop :: "pdf_field list \<Rightarrow> (int \<times> pdf_field list) list \<times> pdf_field list" where
  "area_loop fs = fold area_step fs ([], [])"

definition section16_3_by_area :: "pdf_field list \<Rightarrow> (int \<times> pdf_field list) list" where
  "section16_3_by_area fs = fst (area_loop (cfd_section16_3_fields fs))"

definition section16_3_shared :: "pdf_field list \<Rightarrow> pdf_field list" where
  "section16_3_shared fs = snd (area_loop (cfd_section16_3_fields fs))"

definition total_area_fields :: "pdf_field list \<Rightarrow> int" where
  "total_area_fields fs = sum_list (map (\<lambda>kv. int (length (snd kv))) (section16_3_by_area fs))"

definition shared_fields_count :: "pdf_field list \<Rightarrow> int" where
  "shared_fields_count fs = int (length (section16_3_shared fs))"

definition num_people :: "pdf_field list \<Rightarrow> int" where
  "num_people fs = int (length (section16_3_by_area fs))"

text \<open>The block under \<^verbatim>\<open>if num_people > 0\<close>: for every area in sorted order, the
  \<^verbatim>\<open>total_for_person\<close> that the script prints. \<open>None\<close> when the block is skipped.\<close>

definition person_totals :: "pdf_field list \<Rightarrow> (int \<times> int) list option" where
  "person_totals fs =
     (if num_people fs > 0 then
        (let shared_per_person = shared_fields_count fs div num_people fs
         in Some (map (\<lambda>area. (area, int (length (dd_get (section16_3_by_area fs) area)) + shared_per_person))
              (sort (map fst (section16_3_by_area fs)))))
      else None)"

text \<open>The block under \<^verbatim>\<open>if num_people == 3\<close>: the four \<^verbatim>\<open>entries\<close>.\<close>

definition entries :: "pdf_field list \<Rightarrow> int list option" where
  "entries fs =
     (if num_people fs = 3 then
        (let shared_per_person = shared_fields_count fs div 3;
             entry1_fields = int (length (cfd_section16_1_fields fs));
             entry2_fields = int (length (dd_get (section16_3_by_area fs) 0)) + shared_per_person;
             entry3_fields = int (length (dd_get (section16_3_by_area fs) 1)) + shared_per_person;
             entry4_fields = int (length (dd_get (section16_3_by_area fs) 2)) + shared_per_person
         in Some [entry1_fields, entry2_fields, entry3_fields, entry4_fields])
      else None)"

definition mk_field :: "string \<Rightarrow> pdf_field" where
  "mk_field n = \<lparr>f_name = n, f_label = None, f_type = None, f_page = None\<rparr>"

definition demo_fields :: "pdf_field list" where
  "demo_fields =
     [mk_field ''form1[0].Section16_3[0].#area[0].From_Datefield_Name_2[0]'',
      mk_field ''form1[0].Section16_3[0].#area[1].From_Datefield_Name_2[2]'',
      mk_field ''form1[0].Section16_3[0].#area[2].From_Datefield_Name_2[4]'',
      mk_field ''form1[0].Section16_3[0].TextField11[0]'']"


section \<open>analyze\_section16\_structure.py\<close>







section \<open>Sample fields\<close>


definition unknown_field :: pdf_field where
  "unknown_field = mk_field ''form1[0].Section16_3[0].TextField11[40]''"

text \<open>Three fields of Section16\_3 with no \<^verbatim>\<open>TextField11\<close> index and no area marker.\<close>

definition pool_fields :: "pdf_field list" where
  "pool_fields =
     [mk_field ''form1[0].Section16_3[0].DropDownList29[0]'',
      mk_field ''form1[0].Section16_3[0].DropDownList29[1]'',
      mk_field ''form1[0].Section16_3[0].DropDownList29[2]'']"

section \<open>scripts/generate-field-mappings.py\<close>

definition radio_re :: "rx list" where
  "radio_re = [Lit ''RadioButtonList['', GOpen, Digits, GClose, Lit '']'']"

definition date_re :: "rx list" where
  "date_re = [Lit ''From_Datefield_Name_2['', GOpen, Digits, GClose, Lit '']'']"

definition state_re :: "rx list" where
  "state_re = [Lit ''School6_State['', GOpen, Digits, GClose, Lit '']'']"

definition dropdown_re :: "rx list" where
  "dropdown_re =
     [Lit ''DropDownList'', GOpen, Digits, GClose, Lit ''['', GOpen, Digits, GClose, Lit '']'']"

definition phone_re :: "rx list" where
  "phone_re = [Lit ''p3-t68['', GOpen, Digits, GClose, Lit '']'']"

definition field_re :: "rx list" where
  "field_re = [Lit ''#field['', GOpen, Digits, GClose, Lit '']'']"

definition table_re :: "rx list" where
  "table_re =
     [Lit ''Table1['', GOpen, Digits, GClose, Lit '']'', DotStar,
      Lit ''Row'', GOpen, Digits, GClose, Lit ''['', GOpen, Digits, GClose, Lit '']'', DotStar,
      Lit ''Cell'', GOpen, Digits, GClose, Lit ''['', GOpen, Digits, GClose, Lit '']'']"

definition area_then_field_re :: "rx list" where
  "area_then_field_re =
     [Lit ''#area['', GOpen, Digits, GClose, Lit '']'', DotStar,
      Lit ''#field['', GOpen, Digits, GClose, Lit '']'']"

text \<open>\<^verbatim>\<open>section13[_-]?(\d+(?:-\d+)?)\<close>\<close>

definition section_num_re :: "rx list" where
  "section_num_re =
     [Lit ''section13'', Opt [Class ''_-''], GOpen, Digits, Opt [Lit ''-'', Digits], GClose]"

text \<open>\<^verbatim>\<open>s.split(c)\<close> for a one-character separator.\<close>

primrec py_split :: "char \<Rightarrow> string \<Rightarrow> string list" where
  "py_split c [] = [[]]"
| "py_split c (x # xs) =
     (if x = c then [] # py_split c xs
      else (case py_split c xs of [] \<Rightarrow> [[x]] | p # ps \<Rightarrow> (x # p) # ps))"

text \<open>
  The two shapes that almost every inner branch of \<^verbatim>\<open>generate_logical_path\<close> has.
  \<open>mapped\<close>: search the pattern, read group \<open>k\<close> as a number, look it up in a literal
  dictionary and return \<^verbatim>\<open>f'{pre}{field_map[num]}.value'\<close>. \<open>numbered\<close>: search the
  pattern and return \<^verbatim>\<open>f'{pre}{num}.value'\<close>. \<open>None\<close> stands for "this branch returned
  nothing": control then leaves the whole \<^verbatim>\<open>if\<close>/\<^verbatim>\<open>elif\<close> chain and reaches the default
  fallback at the end of the function. A two-way \<^verbatim>\<open>if num == 0 ... elif num == 1\<close> is
  written as a dictionary with the keys 0 and 1.
\<close>

definition mapped :: "rx list \<Rightarrow> nat \<Rightarrow> string \<Rightarrow> (int \<times> string) list \<Rightarrow> string \<Rightarrow> string option" where
  "mapped re k field_name field_map pre =
     (case search_int re k field_name of
        None \<Rightarrow> None
      | Some num \<Rightarrow>
          (case map_of field_map num of
             None \<Rightarrow> None
           | Some v \<Rightarrow> Some (pre @ v @ ''.value'')))"

definition numbered :: "rx list \<Rightarrow> nat \<Rightarrow> string \<Rightarrow> string \<Rightarrow> string option" where
  "numbered re k field_name pre =
     (case search_int re k field_name of
        None \<Rightarrow> None
      | Some num \<Rightarrow> Some (pre @ py_str num @ ''.value''))"

text \<open>The \<^verbatim>\<open>Table1\<close> pattern has five groups; the path uses the first, second and
  fourth.\<close>

definition table_path :: "string \<Rightarrow> string \<Rightarrow> string option" where
  "table_path field_name pre =
     (case re_search table_re field_name of
        Some [t, r, r', c, c'] \<Rightarrow>
          Some (pre @ ''table'' @ py_str (py_int t) @ ''Row'' @ py_str (py_int r)
                  @ ''Cell'' @ py_str (py_int c) @ ''.value'')
      | _ \<Rightarrow> None)"

subsection \<open>Federal employment (13A.1)\<close>

definition federal_employment :: "string \<Rightarrow> string option" where
  "federal_employment field_name =
     (let pre = ''section13.federalEmployment.entries[0].'' in
      if contains ''TextField11'' field_name then
        mapped textfield_re 1 field_name
          [(0, ''supervisorName''), (1, ''supervisorRank''), (2, ''supervisorTitle''),
           (3, ''supervisorAddress''), (4, ''supervisorCity''), (5, ''supervisorZip''),
           (6, ''employerStreet''), (7, ''employerCity''), (8, ''employerZip''),
           (9, ''dutyStreet''), (10, ''dutyCity''), (11, ''dutyZip''), (12, ''extension''),
           (13, ''otherExplanation''), (14, ''supervisorAddressAlt''),
           (15, ''supervisorCityAlt''), (16, ''dutyStreetAlt''), (17, ''dutyApoFpo''),
           (18, ''dutyZipAlt''), (19, ''supervisorNameAlt'')] pre
      else if contains ''RadioButtonList'' field_name then
        mapped radio_re 1 field_name [(0, ''employmentType''), (1, ''hasAdditionalInfo'')] pre
      else if contains ''From_Datefield_Name_2'' field_name then
        mapped date_re 1 field_name [(0, ''fromDate''), (1, ''toDate'')] pre
      else if contains ''School6_State'' field_name then
        mapped state_re 1 field_name
          [(0, ''supervisorState''), (1, ''employerState''), (2, ''dutyState''),
           (3, ''supervisorStateAlt''), (4, ''dutyStateAlt'')] pre
      else if contains ''DropDownList'' field_name then
        mapped dropdown_re 1 field_name
          [(4, ''countryCode''), (17, ''employerCountry''), (18, ''supervisorCountry''),
           (20, ''dutyCountry'')] pre
      else if contains ''p3-t68'' field_name then
        mapped phone_re 1 field_name
          [(0, ''supervisorPhone''), (1, ''employerPhone''), (2, ''supervisorEmail''),
           (3, ''rankTitle''), (4, ''dutyStation'')] pre
      else if contains ''#field'' field_name then
        numbered field_re 1 field_name (pre @ ''field'')
      else if contains ''p13a-1-1cb'' field_name then
        Some ''section13.federalEmployment.entries[0].checkbox.value''
      else None)"

subsection \<open>Non-federal employment (13A.2)\<close>

definition non_federal_employment :: "string \<Rightarrow> string option" where
  "non_federal_employment field_name =
     (let pre = ''section13.nonFederalEmployment.entries[0].'' in
      if contains ''TextField11'' field_name then
        mapped textfield_re 1 field_name
          [(0, ''employerName''), (1, ''positionTitle''), (2, ''supervisorName''),
           (3, ''supervisorTitle''), (4, ''employerStreet''), (5, ''employerCity''),
           (6, ''employerZip''), (7, ''employerPhone''), (8, ''extension''),
           (9, ''dutyStreet''), (10, ''dutyCity''), (11, ''dutyZip''),
           (12, ''additionalInfo''), (13, ''reasonForLeaving''), (14, ''supervisorAddress''),
           (15, ''supervisorCity''), (16, ''supervisorStreet''), (17, ''supervisorApoFpo''),
           (18, ''supervisorZip''), (19, ''supervisorNameAlt''), (20, ''employerAddress2''),
           (21, ''employerCity2''), (22, ''employerStreet2''), (23, ''employerApoFpo''),
           (24, ''employerZip2''), (25, ''employerNameAlt'')] pre
      else if contains ''RadioButtonList'' field_name then
        mapped radio_re 1 field_name
          [(0, ''employmentType''), (1, ''hasAdditionalInfo''), (2, ''isCurrentEmployment'')] pre
      else if contains ''From_Datefield_Name_2'' field_name then
        mapped date_re 1 field_name [(0, ''fromDate''), (1, ''toDate'')] pre
      else if contains ''School6_State'' field_name then
        mapped state_re 1 field_name
          [(0, ''employerState''), (1, ''dutyState''), (2, ''supervisorState''),
           (3, ''employerStateAlt''), (4, ''dutyStateAlt''), (5, ''supervisorStateAlt''),
           (6, ''additionalState'')] pre
      else if contains ''DropDownList'' field_name then
        mapped dropdown_re 1 field_name
          [(4, ''countryCode''), (13, ''employerCountry''), (15, ''dutyCountry''),
           (16, ''supervisorCountry'')] pre
      else if contains ''p3-t68'' field_name then
        mapped phone_re 1 field_name
          [(0, ''employerPhone''), (1, ''dutyPhone''), (2, ''supervisorEmail''),
           (3, ''supervisorPhone''), (4, ''additionalPhone''), (5, ''emergencyContact'')] pre
      else if contains ''#field'' field_name then
        numbered field_re 1 field_name (pre @ ''field'')
      else if contains ''Table1'' field_name then
        table_path field_name pre
      else None)"

subsection \<open>Self-employment (13A.3)\<close>

definition self_employment :: "string \<Rightarrow> string option" where
  "self_employment field_name =
     (let pre = ''section13.selfEmployment.entries[0].'' in
      if contains ''TextField11'' field_name then
        mapped textfield_re 1 field_name
          [(0, ''businessName''), (1, ''businessType''), (2, ''businessDescription''),
           (3, ''businessStreet''), (4, ''businessCity''), (5, ''businessZip''),
           (6, ''businessPhone''), (7, ''businessExtension''), (8, ''businessEmail''),
           (9, ''businessAddress2''), (10, ''businessCity2''), (11, ''businessZip2''),
           (12, ''additionalInfo''), (13, ''businessLicense''), (14, ''businessTaxId''),
           (15, ''businessRevenue''), (16, ''businessEmployees''), (17, ''businessApoFpo''),
           (18, ''businessZipAlt''), (19, ''businessContact''), (20, ''businessAddress3''),
           (21, ''businessCity3''), (22, ''businessStreet3''), (23, ''businessApoFpo2''),
           (24, ''businessZip3''), (25, ''businessNameAlt'')] pre
      else if contains ''RadioButtonList'' field_name then
        mapped radio_re 1 field_name
          [(0, ''businessType''), (1, ''hasEmployees''), (2, ''isCurrentBusiness'')] pre
      else if contains ''From_Datefield_Name_2'' field_name then
        mapped date_re 1 field_name [(0, ''fromDate''), (1, ''toDate'')] pre
      else if contains ''School6_State'' field_name then
        mapped state_re 1 field_name
          [(0, ''businessState''), (1, ''businessState2''), (2, ''businessState3''),
           (3, ''businessStateAlt''), (4, ''businessStateAlt2''), (5, ''businessStateAlt3''),
           (6, ''additionalState'')] pre
      else if contains ''DropDownList'' field_name then
        mapped dropdown_re 1 field_name
          [(4, ''countryCode''), (9, ''businessCountry''), (10, ''businessCountry2''),
           (11, ''businessCountry3'')] pre
      else if contains ''p3-t68'' field_name then
        mapped phone_re 1 field_name
          [(0, ''businessPhone''), (1, ''businessPhone2''), (2, ''businessEmail''),
           (3, ''businessFax''), (4, ''businessWebsite'')] pre
      else if contains ''#field'' field_name then
        numbered field_re 1 field_name (pre @ ''field'')
      else None)"

subsection \<open>Unemployment (13A.4)\<close>

definition unemployment :: "string \<Rightarrow> string option" where
  "unemployment field_name =
     (let pre = ''section13.unemployment.entries[0].'' in
      if contains ''TextField11'' field_name then
        mapped textfield_re 1 field_name
          [(0, ''firstName''), (1, ''lastName''), (2, ''referenceStreet''),
           (3, ''referenceCity''), (4, ''referenceZip''), (5, ''referencePhone''),
           (6, ''referenceExtension''), (7, ''referenceEmail''), (8, ''referenceAddress2''),
           (9, ''referenceCity2''), (10, ''referenceStreet2''), (11, ''referenceZip2''),
           (12, ''additionalInfo'')] pre
      else if contains ''RadioButtonList'' field_name then
        mapped radio_re 1 field_name
          [(0, ''hasReference''), (1, ''receivedBenefits''), (2, ''isCurrentlyUnemployed'')] pre
      else if contains ''From_Datefield_Name_2'' field_name then
        mapped date_re 1 field_name
          [(0, ''fromDate''), (1, ''toDate''), (2, ''unemploymentStartDate''),
           (3, ''unemploymentEndDate''), (4, ''benefitsStartDate''), (5, ''benefitsEndDate''),
           (6, ''additionalFromDate''), (7, ''additionalToDate''), (8, ''referenceFromDate''),
           (9, ''referenceToDate'')] pre
      else if contains ''School6_State'' field_name then
        mapped state_re 1 field_name
          [(0, ''referenceState''), (1, ''referenceState2''), (2, ''additionalState'')] pre
      else if contains ''DropDownList'' field_name then
        mapped dropdown_re 1 field_name [(4, ''countryCode''), (6, ''referenceCountry'')] pre
      else if contains ''p3-t68'' field_name then
        numbered phone_re 1 field_name (pre @ ''phone'')
      else if contains ''#field'' field_name then
        numbered field_re 1 field_name (pre @ ''field'')
      else if contains ''#area'' field_name then
        (case re_search area_then_field_re field_name of
           Some [area_num, field_num] \<Rightarrow>
             Some (pre @ ''area'' @ py_str (py_int area_num) @ ''Field''
                     @ py_str (py_int field_num) @ ''.value'')
         | _ \<Rightarrow> None)
      else None)"

subsection \<open>Employment record issues (13A.5)\<close>

definition employment_issues_area :: "string \<Rightarrow> string option" where
  "employment_issues_area field_name =
     (case search_int area_re 1 field_name of
        None \<Rightarrow> None
      | Some area_num \<Rightarrow>
          (let pre = ''section13.employmentRecordIssues.area'' @ py_str area_num in
           if contains ''TextField11'' field_name then
             numbered textfield_re 1 field_name (pre @ ''Text'')
           else if contains ''#field'' field_name then
             numbered field_re 1 field_name (pre @ ''Field'')
           else if contains ''DropDownList'' field_name then
             numbered dropdown_re 1 field_name (pre @ ''Dropdown'')
           else if contains ''From_Datefield_Name_2'' field_name then
             numbered date_re 1 field_name (pre @ ''Date'')
           else if contains ''School6_State'' field_name then
             numbered state_re 1 field_name (pre @ ''State'')
           else if contains ''p3-t68'' field_name then
             numbered phone_re 1 field_name (pre @ ''Phone'')
           else None))"

definition employment_issues :: "string \<Rightarrow> string option" where
  "employment_issues field_name =
     (let pre = ''section13.employmentRecordIssues.'' in
      if contains ''TextField11'' field_name then
        mapped textfield_re 1 field_name
          [(0, ''agencyName''), (1, ''agencyAddress''), (2, ''clearanceLevel''),
           (3, ''gapExplanation''), (4, ''classificationLevel''), (5, ''agencyCity''),
           (6, ''agencyStreet''), (7, ''agencyZip''), (8, ''agencyPhone''),
           (9, ''agencyContact''), (10, ''agencyEmail''), (11, ''additionalInfo'')] pre
      else if contains ''RadioButtonList'' field_name then
        mapped radio_re 1 field_name [(0, ''hasFederalEmployment''), (1, ''hasGaps'')] pre
      else if contains ''From_Datefield_Name_2'' field_name then
        mapped date_re 1 field_name
          [(0, ''clearanceFromDate''), (1, ''clearanceToDate''), (2, ''employmentFromDate''),
           (3, ''employmentToDate''), (4, ''gapFromDate''), (5, ''gapToDate''),
           (6, ''additionalFromDate''), (7, ''additionalToDate'')] pre
      else if contains ''School6_State'' field_name then
        mapped state_re 1 field_name
          [(0, ''agencyState''), (1, ''agencyState2''), (2, ''agencyState3''),
           (3, ''additionalState'')] pre
      else if contains ''DropDownList'' field_name then
        mapped dropdown_re 1 field_name [(2, ''agencyCountry'')] pre
      else if contains ''p3-t68'' field_name then
        mapped phone_re 1 field_name
          [(0, ''agencyPhone''), (1, ''agencyPhone2''), (2, ''agencyFax''),
           (3, ''agencyEmail''), (4, ''contactPhone''), (5, ''contactPhone2''),
           (6, ''contactEmail''), (7, ''additionalPhone'')] pre
      else if contains ''#field'' field_name then
        numbered field_re 1 field_name (pre @ ''field'')
      else if contains ''#area'' field_name then
        employment_issues_area field_name
      else None)"

subsection \<open>The additional forms\<close>

definition generate_additional_section_mapping :: "string \<Rightarrow> string \<Rightarrow> string option" where
  "generate_additional_section_mapping field_name section_prefix =
     (let pre = ''section13.'' @ section_prefix @ ''.entries[0].'' in
      if contains ''TextField11'' field_name then
        numbered textfield_re 1 field_name (pre @ ''textField'')
      else if contains ''RadioButtonList'' field_name then
        numbered radio_re 1 field_name (pre @ ''radioButton'')
      else if contains ''From_Datefield_Name_2'' field_name then
        numbered date_re 1 field_name (pre @ ''dateField'')
      else if contains ''School6_State'' field_name then
        numbered state_re 1 field_name (pre @ ''state'')
      else if contains ''DropDownList'' field_name then
        numbered dropdown_re 1 field_name (pre @ ''dropdown'')
      else if contains ''p3-t68'' field_name then
        numbered phone_re 1 field_name (pre @ ''phone'')
      else if contains ''#field'' field_name then
        numbered field_re 1 field_name (pre @ ''field'')
      else if contains ''Table1'' field_name then
        table_path field_name pre
      else None)"

subsection \<open>The default fallback\<close>

text \<open>\<^verbatim>\<open>field_index\<close> starts at 0 and keeps that value when the index pattern does not
  match.\<close>

definition index_or_zero :: "rx list \<Rightarrow> string \<Rightarrow> int" where
  "index_or_zero re field_name =
     (case search_int re 1 field_name of None \<Rightarrow> 0 | Some i \<Rightarrow> i)"

definition default_fallback :: "string \<Rightarrow> string option" where
  "default_fallback field_name =
     (case search_group section_num_re 1 field_name of
        None \<Rightarrow> None
      | Some section_id \<Rightarrow>
          (let pre = ''section13.section'' @ section_id @ ''.'';
               basic = (\<lambda>field_type field_index.
                  Some (pre @ field_type @ py_str field_index @ ''.value''))
           in
           if contains ''TextField11'' field_name then
             basic ''textField'' (index_or_zero textfield_re field_name)
           else if contains ''RadioButtonList'' field_name then
             basic ''radioButton'' (index_or_zero radio_re field_name)
           else if contains ''CheckBox'' field_name then
             basic ''checkBox'' 0
           else if contains ''DropDownList'' field_name then
             basic ''dropdown'' (index_or_zero dropdown_re field_name)
           else if contains ''School6_State'' field_name then
             basic ''state'' (index_or_zero state_re field_name)
           else if contains ''From_Datefield_Name_2'' field_name then
             basic ''dateField'' (index_or_zero date_re field_name)
           else if contains ''p3-t68'' field_name then
             basic ''phoneField'' (index_or_zero phone_re field_name)
           else if contains ''#field'' field_name then
             basic ''genericField'' (index_or_zero field_re field_name)
           else if contains ''Table1'' field_name then
             (case table_path field_name pre of
                Some p \<Rightarrow> Some p
              | None \<Rightarrow> basic ''tableField'' 0)
           else basic ''unknown'' 0))"

subsection \<open>generate\_logical\_path\<close>

text \<open>
  The second and third parameter of the Python function (\<^verbatim>\<open>field_value\<close>,
  \<^verbatim>\<open>section_pattern\<close>) are never read and are left out, as is the unused
  \<^verbatim>\<open>section_part\<close>. A branch of the outer chain that returns nothing falls through to
  the default fallback; the three branches for the additional forms return whatever
  \<^verbatim>\<open>generate_additional_section_mapping\<close> returns, \<open>None\<close> included.
\<close>

definition or_fallback :: "string option \<Rightarrow> string \<Rightarrow> string option" where
  "or_fallback r field_name = (case r of Some p \<Rightarrow> Some p | None \<Rightarrow> default_fallback field_name)"

definition generate_logical_path :: "string \<Rightarrow> string option" where
  "generate_logical_path field_name =
     (if length (py_split CHR ''.'' field_name) < 2 then None
      else if contains ''section_13_1-2'' field_name then
        or_fallback (federal_employment field_name) field_name
      else if contains ''section13_2'' field_name \<and> \<not> contains ''section13_2-2'' field_name then
        or_fallback (non_federal_employment field_name) field_name
      else if contains ''section13_3'' field_name \<and> \<not> contains ''section13_3-2'' field_name then
        or_fallback (self_employment field_name) field_name
      else if contains ''section13_4'' field_name then
        or_fallback (unemployment field_name) field_name
      else if contains ''section13_5'' field_name then
        or_fallback (employment_issues field_name) field_name
      else if contains ''section13_2-2'' field_name then
        generate_additional_section_mapping field_name ''nonFederalEmploymentAdditional''
      else if contains ''section13_3-2'' field_name then
        generate_additional_section_mapping field_name ''selfEmploymentAdditional''
      else if contains ''section13_4_3'' field_name then
        generate_additional_section_mapping field_name ''unemploymentAdditional''
      else default_fallback field_name)"

subsection \<open>The mapping loop of main\<close>

text \<open>
  An element of \<^verbatim>\<open>data['fields']\<close> is skipped unless it is a dictionary with a
  \<^verbatim>\<open>name\<close>; \<open>None\<close> stands for such an element and \<open>Some n\<close> for a field named \<open>n\<close>.
  \<^verbatim>\<open>mappings\<close> is a dictionary from logical path to field name, \<^verbatim>\<open>section_stats\<close> a
  \<^verbatim>\<open>defaultdict(int)\<close>.
\<close>

record main_state =
  mappings :: "string \<rightharpoonup> string"
  unmapped_fields :: "string list"
  section_stats :: "string \<Rightarrow> nat"

definition stats_key :: "string \<Rightarrow> string" where
  "stats_key field_name =
     (if contains ''section_13_1-2'' field_name then ''13A.1 Federal Employment''
      else if contains ''section13_2'' field_name \<and> \<not> contains ''section13_2-2'' field_name
        then ''13A.2 Non-Federal Employment''
      else if contains ''section13_2-2'' field_name then ''13A.2 Additional Non-Federal''
      else if contains ''section13_3'' field_name \<and> \<not> contains ''section13_3-2'' field_name
        then ''13A.3 Self-Employment''
      else if contains ''section13_3-2'' field_name then ''13A.3 Additional Self-Employment''
      else if contains ''section13_4'' field_name then ''13A.4 Unemployment''
      else if contains ''section13_5'' field_name then ''13A.5 Employment Issues''
      else ''Other'')"

text \<open>\<^verbatim>\<open>if logical_path:\<close> is false for \<open>None\<close> and for the empty string.\<close>

definition main_step :: "string option \<Rightarrow> main_state \<Rightarrow> main_state" where
  "main_step field st =
     (case field of
        None \<Rightarrow> st
      | Some field_name \<Rightarrow>
          (case generate_logical_path field_name of
             Some logical_path \<Rightarrow>
               if logical_path \<noteq> [] then
                 st\<lparr>mappings := (mappings st)(logical_path \<mapsto> field_name),
                    section_stats := (section_stats st)
                      (stats_key field_name := section_stats st (stats_key field_name) + 1)\<rparr>
               else st\<lparr>unmapped_fields := unmapped_fields st @ [field_name]\<rparr>
           | None \<Rightarrow> st\<lparr>unmapped_fields := unmapped_fields st @ [field_name]\<rparr>))"

definition main_init :: main_state where
  "main_init = \<lparr>mappings = Map.empty, unmapped_fields = [], section_stats = (\<lambda>_. 0)\<rparr>"

definition main_loop :: "string option list \<Rightarrow> main_state" where
  "main_loop fs = fold main_step fs main_init"

subsection \<open>Notions used to state the properties of the mapping loop\<close>

text \<open>The names of the fields that the loop does not skip; whether a name gets a
  (non-empty) logical path; the last name of a batch that resolves to a given path.\<close>

definition names :: "string option list \<Rightarrow> string list" where
  "names fs = List.map_filter id fs"

definition is_mapped :: "string \<Rightarrow> bool" where
  "is_mapped field_name =
     (case generate_logical_path field_name of None \<Rightarrow> False | Some p \<Rightarrow> p \<noteq> [])"

definition last_name_for :: "string \<Rightarrow> string list \<Rightarrow> string option" where
  "last_name_for p ns =
     (case filter (\<lambda>n. is_mapped n \<and> generate_logical_path n = Some p) ns of
        [] \<Rightarrow> None
      | m # ms \<Rightarrow> Some (last (m # ms)))"

text \<open>A name that carries none of the widget tags the function knows, and a name that
  reaches one of the two live branches for the additional forms.\<close>

definition no_type_tag :: "string \<Rightarrow> bool" where
  "no_type_tag field_name =
     (\<not> contains ''TextField11'' field_name \<and> \<not> contains ''RadioButtonList'' field_name
      \<and> \<not> contains ''From_Datefield_Name_2'' field_name \<and> \<not> contains ''School6_State'' field_name
      \<and> \<not> contains ''DropDownList'' field_name \<and> \<not> contains ''p3-t68'' field_name
      \<and> \<not> contains ''#field'' field_name \<and> \<not> contains ''#area'' field_name
      \<and> \<not> contains ''Table1'' field_name \<and> \<not> contains ''CheckBox'' field_name
      \<and> \<not> contains ''p13a-1-1cb'' field_name)"

definition reaches_additional_form :: "string \<Rightarrow> bool" where
  "reaches_additional_form field_name =
     (\<not> contains ''section_13_1-2'' field_name
      \<and> (contains ''section13_2'' field_name \<longrightarrow> contains ''section13_2-2'' field_name)
      \<and> (contains ''section13_3'' field_name \<longrightarrow> contains ''section13_3-2'' field_name)
      \<and> \<not> contains ''section13_4'' field_name \<and> \<not> contains ''section13_5'' field_name
      \<and> (contains ''section13_2-2'' field_name \<or> contains ''section13_3-2'' field_name))"

subsection \<open>Sample names\<close>

definition base_name :: string where
  "base_name = ''form1[0].section13_4[0].TextField11[0]''"

definition additional_name :: string where
  "additional_name = ''form1[0].section13_4_3[0].TextField11[0]''"

definition last_name :: string where
  "last_name = ''form1[0].section13_4[0].TextField11[1]''"

definition unmapped_name :: string where
  "unmapped_name = ''form1[0].Sections1-6[0].TextField11[0]''"

definition fallthrough_name :: string where
  "fallthrough_name = ''form1[0].section13_4_3[0].TextField11[50]''"

definition untagged_name :: string where
  "untagged_name = ''form1[0].section13_9[0].Signature[3]''"

definition first_name_path :: string where
  "first_name_path = ''section13.unemployment.entries[0].firstName.value''"

section \<open>scripts/verify-section13-complete-1086.py\<close>








definition get_or :: "'a option \<Rightarrow> 'a \<Rightarrow> 'a" where
  "get_or v d = (case v of None \<Rightarrow> d | Some x \<Rightarrow> x)"













section \<open>generate\_section16\_interfaces.py\<close>

text \<open>\<^verbatim>\<open>s.lower()\<close> on the ASCII letters.\<close>

definition lower_char :: "char \<Rightarrow> char" where
  "lower_char c =
     (if (65 :: nat) \<le> of_char c \<and> of_char c \<le> (90 :: nat) then char_of (of_char c + (32 :: nat))
      else c)"

definition py_lower :: "string \<Rightarrow> string" where
  "py_lower s = map lower_char s"

text \<open>The dictionary \<^verbatim>\<open>field_info\<close> that the main function builds for every field.\<close>

record field_info =
  i_name :: string
  i_label :: string
  i_type :: string
  i_page :: int

definition field_info_of :: "pdf_field \<Rightarrow> field_info" where
  "field_info_of field =
     \<lparr>i_name = f_name field, i_label = get_or (f_label field) '''',
      i_type = get_or (f_type field) '''', i_page = get_or (f_page field) 0\<rparr>"

text \<open>The two dictionaries from name to \<^verbatim>\<open>field_info\<close>, in insertion order.\<close>

definition categorize_step ::
  "pdf_field \<Rightarrow> (string \<times> field_info) list \<times> (string \<times> field_info) list
     \<Rightarrow> (string \<times> field_info) list \<times> (string \<times> field_info) list" where
  "categorize_step field st =
     (let name = f_name field; info = field_info_of field in
      if contains ''Section16_1'' name then (AList.update name info (fst st), snd st)
      else if contains ''Section16_3'' name then (fst st, AList.update name info (snd st))
      else st)"

definition categorize :: "pdf_field list \<Rightarrow> (string \<times> field_info) list \<times> (string \<times> field_info) list" where
  "categorize fs = fold categorize_step fs ([], [])"

definition section16_1_group :: "string \<Rightarrow> field_info \<Rightarrow> string" where
  "section16_1_group name field =
     (let label = py_lower (i_label field) in
      if contains ''organization'' label \<or> contains ''TextField11[0]'' name then ''organization''
      else if contains ''contact #1'' label \<or> contains ''#area[2]'' name then ''contact1''
      else if contains ''contact #2'' label \<or> contains ''#area[5]'' name then ''contact2''
      else if contains ''date'' label \<or> contains ''From_Datefield'' name then ''dates''
      else if contains ''position'' label \<or> contains ''rank'' label \<or> contains ''division'' label
        then ''service_details''
      else ''other'')"

definition analyze_section16_1_fields ::
  "(string \<times> field_info) list \<Rightarrow> (string \<times> (string \<times> field_info) list) list" where
  "analyze_section16_1_fields fs =
     fold (\<lambda>item groups. dd_append (section16_1_group (fst item) (snd item)) item groups) fs
       [(''organization'', []), (''service_details'', []), (''contact1'', []),
        (''contact2'', []), (''dates'', []), (''other'', [])]"

definition section16_3_group :: "string \<Rightarrow> field_info \<Rightarrow> string" where
  "section16_3_group name field =
     (let label = py_lower (i_label field) in
      if contains ''#area[0]'' name \<or> contains ''entry #1'' label then ''person1''
      else if contains ''#area[1]'' name \<or> contains ''entry #2'' label then ''person2''
      else if contains ''#area[2]'' name \<or> contains ''entry #3'' label then ''person3''
      else ''shared'')"

definition analyze_section16_3_fields ::
  "(string \<times> field_info) list \<Rightarrow> (string \<times> (string \<times> field_info) list) list" where
  "analyze_section16_3_fields fs =
     fold (\<lambda>item groups. dd_append (section16_3_group (fst item) (snd item)) item groups) fs
       [(''person1'', []), (''person2'', []), (''person3'', []), (''shared'', [])]"

text \<open>Two items with the same name and, up to case, the same label.\<close>

definition same_name_and_label :: "string \<times> field_info \<Rightarrow> string \<times> field_info \<Rightarrow> bool" where
  "same_name_and_label a b =
     (fst a = fst b \<and> py_lower (i_label (snd a)) = py_lower (i_label (snd b)))"

definition relabelled_info :: field_info where
  "relabelled_info = \<lparr>i_name = ''form1[0].Section16_3[0].TextField11[40]'',
     i_label = ''ENTRY #1 LAST NAME'', i_type = ''PDFDropdown'', i_page = 1\<rparr>"

definition labelled_info :: field_info where
  "labelled_info = \<lparr>i_name = ''form1[0].Section16_3[0].TextField11[40]'',
     i_label = ''Entry #1 Last name'', i_type = ''PDFTextField'', i_page = 35\<rparr>"



section \<open>Properties of the Section 16 scripts\<close>

lemma dd_get_append: "dd_get (dd_append k v d) k' = (if k' = k then dd_get d k @ [v] else dd_get d k')"
  by (simp add: dd_get_def dd_append_def update_conv')

lemma keys_dd_append:
  "map fst (dd_append k v d) = (if k \<in> set (map fst d) then map fst d else map fst d @ [k])"
  by (simp add: dd_append_def update_keys)

lemma distinct_dd_append: "distinct (map fst d) \<Longrightarrow> distinct (map fst (dd_append k v d))"
  by (simp add: dd_append_def distinct_update)

lemma sum_update_present:
  "distinct (map fst d) \<Longrightarrow> map_of d k = Some vs \<Longrightarrow>
     sum_list (map (\<lambda>kv. int (length (snd kv))) (AList.update k ws d))
       = sum_list (map (\<lambda>kv. int (length (snd kv))) d) - int (length vs) + int (length ws)"
  by (induction d) (auto simp: image_iff)

lemma sum_update_absent:
  "map_of d k = None \<Longrightarrow>
     sum_list (map (\<lambda>kv. int (length (snd kv))) (AList.update k ws d))
       = sum_list (map (\<lambda>kv. int (length (snd kv))) d) + int (length ws)"
  by (induction d) (auto split: if_splits)

lemma sum_dd_append:
  "distinct (map fst d) \<Longrightarrow>
     sum_list (map (\<lambda>kv. int (length (snd kv))) (dd_append k v d))
       = sum_list (map (\<lambda>kv. int (length (snd kv))) d) + 1"
  by (cases "map_of d k") (simp_all add: dd_append_def dd_get_def sum_update_absent sum_update_present)










lemma area_step_inv:
  assumes "distinct (map fst (fst st))"
  shows "distinct (map fst (fst (area_step f st)))
     \<and> sum_list (map (\<lambda>kv. int (length (snd kv))) (fst (area_step f st)))
         + int (length (snd (area_step f st)))
       = sum_list (map (\<lambda>kv. int (length (snd kv))) (fst st)) + int (length (snd st)) + 1"
  using assms
  by (auto simp: area_step_def distinct_dd_append sum_dd_append split: option.splits)

lemma area_fold_inv:
  "distinct (map fst (fst st)) \<Longrightarrow>
     distinct (map fst (fst (fold area_step fs st)))
     \<and> sum_list (map (\<lambda>kv. int (length (snd kv))) (fst (fold area_step fs st)))
         + int (length (snd (fold area_step fs st)))
       = sum_list (map (\<lambda>kv. int (length (snd kv))) (fst st)) + int (length (snd st))
           + int (length fs)"
proof (induction fs arbitrary: st)
  case Nil
  then show ?case by simp
next
  case (Cons f fs)
  have d: "distinct (map fst (fst (area_step f st)))"
    using area_step_inv [OF Cons.prems] by simp
  show ?case
    using Cons.IH [OF d] area_step_inv [OF Cons.prems, of f] by simp
qed

lemma by_area_distinct: "distinct (map fst (section16_3_by_area fs))"
  using area_fold_inv [of "([], [])" "cfd_section16_3_fields fs"]
  by (simp add: section16_3_by_area_def area_loop_def)

lemma area_plus_shared:
  "total_area_fields fs + shared_fields_count fs = int (length (cfd_section16_3_fields fs))"
  using area_fold_inv [of "([], [])" "cfd_section16_3_fields fs"]
  by (simp add: total_area_fields_def shared_fields_count_def section16_3_by_area_def
      section16_3_shared_def area_loop_def)

lemma sum_list_sort_keys:
  fixes g :: "int \<Rightarrow> int"
  shows "sum_list (map g (sort ks)) = sum_list (map g ks)"
proof -
  have "mset (map g (sort ks)) = mset (map g ks)" by simp
  then show ?thesis by (metis sum_mset_sum_list)
qed

lemma sum_over_keys:
  assumes "distinct (map fst d)"
  shows "sum_list (map (\<lambda>k. int (length (dd_get d k))) (map fst d))
       = sum_list (map (\<lambda>kv. int (length (snd kv))) d)"
proof -
  have h: "dd_get d (fst kv) = snd kv" if "kv \<in> set d" for kv
    using assms that by (cases kv) (simp add: dd_get_def)
  show ?thesis
    unfolding map_map comp_def
    by (rule arg_cong [where f = sum_list], rule map_cong [OF refl]) (simp add: h)
qed

lemma sum_add_const:
  fixes c :: int
  shows "sum_list (map (\<lambda>k. g k + c) ks) = sum_list (map g ks) + int (length ks) * c"
  by (induction ks) (simp_all add: algebra_simps)

lemma person_totals_sum:
  assumes "person_totals fs = Some ts"
  shows "sum_list (map snd ts)
     = total_area_fields fs + num_people fs * (shared_fields_count fs div num_people fs)"
proof -
  let ?d = "section16_3_by_area fs"
  let ?q = "shared_fields_count fs div num_people fs"
  have ts: "ts = map (\<lambda>area. (area, int (length (dd_get ?d area)) + ?q)) (sort (map fst ?d))"
    using assms by (simp add: person_totals_def Let_def split: if_splits)
  have "sum_list (map snd ts) = sum_list (map (\<lambda>area. int (length (dd_get ?d area)) + ?q) (sort (map fst ?d)))"
    by (simp add: ts comp_def)
  also have "\<dots> = sum_list (map (\<lambda>area. int (length (dd_get ?d area)) + ?q) (map fst ?d))"
    by (rule sum_list_sort_keys)
  also have "\<dots> = sum_list (map (\<lambda>area. int (length (dd_get ?d area))) (map fst ?d))
                    + int (length (map fst ?d)) * ?q"
    by (rule sum_add_const)
  also have "\<dots> = total_area_fields fs + num_people fs * ?q"
    using sum_over_keys [OF by_area_distinct, of fs]
    by (simp only: total_area_fields_def num_people_def length_map)
  finally show ?thesis .
qed

text \<open>
  C2 (as amended). \<^verbatim>\<open>calculate_field_distribution\<close> does not replicate a shared field
  into every group: it adds the integer quotient of the number of shared fields by the
  number of groups to each group's count. So the per-group totals add up to the number of
  area-specific fields plus \<open>N * (shared div N)\<close>, which is the number of Section16\_3
  fields minus \<open>shared mod N\<close>: all shared fields together contribute at most their own
  number to the aggregate, not \<open>N\<close> times it. \<^verbatim>\<open>verify_field_pattern\<close> does the same
  for its three persons: each total gets \<^verbatim>\<open>remaining_fields // 3\<close>.
\<close>

theorem shared_fields_are_divided_among_groups:
  assumes "person_totals fs = Some ts"
  shows "(\<forall>(area, total) \<in> set ts.
            total = int (length (dd_get (section16_3_by_area fs) area))
                      + shared_fields_count fs div num_people fs)
       \<and> map fst ts = sort (map fst (section16_3_by_area fs))
       \<and> sum_list (map snd ts)
           = total_area_fields fs + num_people fs * (shared_fields_count fs div num_people fs)
       \<and> sum_list (map snd ts)
           = int (length (cfd_section16_3_fields fs)) - shared_fields_count fs mod num_people fs
       \<and> person_total fs 1 + person_total fs 2 + person_total fs 3
           = int (length (textfield_pattern fs 1)) + int (length (textfield_pattern fs 2))
             + int (length (textfield_pattern fs 3))
             + counts_get (area_counts fs) 0 + counts_get (area_counts fs) 1
             + counts_get (area_counts fs) 2 + 9
             + (remaining_fields fs - remaining_fields fs mod 3)"
proof -
  let ?q = "shared_fields_count fs div num_people fs"
  have ts: "ts = map (\<lambda>area. (area, int (length (dd_get (section16_3_by_area fs) area)) + ?q))
                   (sort (map fst (section16_3_by_area fs)))"
    using assms by (simp add: person_totals_def Let_def split: if_splits)
  have a: "\<forall>(area, total) \<in> set ts.
            total = int (length (dd_get (section16_3_by_area fs) area)) + ?q"
    by (auto simp: ts)
  have b: "map fst ts = sort (map fst (section16_3_by_area fs))"
    by (simp add: ts comp_def)
  have c: "sum_list (map snd ts) = total_area_fields fs + num_people fs * ?q"
    by (rule person_totals_sum [OF assms])
  have "num_people fs * ?q = shared_fields_count fs - shared_fields_count fs mod num_people fs"
    by (simp add: minus_mod_eq_mult_div)
  then have d: "sum_list (map snd ts)
           = int (length (cfd_section16_3_fields fs)) - shared_fields_count fs mod num_people fs"
    using c area_plus_shared [of fs] by simp
  have "3 * (remaining_fields fs div 3) = remaining_fields fs - remaining_fields fs mod 3"
    by (simp add: minus_mod_eq_mult_div)
  then have e: "person_total fs 1 + person_total fs 2 + person_total fs 3
           = int (length (textfield_pattern fs 1)) + int (length (textfield_pattern fs 2))
             + int (length (textfield_pattern fs 3))
             + counts_get (area_counts fs) 0 + counts_get (area_counts fs) 1
             + counts_get (area_counts fs) 2 + 9
             + (remaining_fields fs - remaining_fields fs mod 3)"
    by (simp add: person_total_def)
  show ?thesis using a b c d e by blast
qed

theorem shared_fields_are_divided_among_groups_witness:
  "person_totals demo_fields = Some [(0, 1), (1, 1), (2, 1)]
   \<and> sum_list (map snd [(0 :: int, 1 :: int), (1, 1), (2, 1)])
       = int (length (cfd_section16_3_fields demo_fields))
           - shared_fields_count demo_fields mod num_people demo_fields"
proof -
  have h: "person_totals demo_fields = Some [(0, 1), (1, 1), (2, 1)]"
    by code_simp
  show ?thesis
    using h shared_fields_are_divided_among_groups [OF h] by blast
qed

text \<open>
  C2 (as stated) fails: with three groups and one shared field, every group's total is 1,
  the same as without the shared field, so the shared field contributes 0 to each group
  rather than 1, and 0 to the aggregate rather than 3.
\<close>

theorem shared_field_not_replicated_counterexample:
  "length (section16_3_shared demo_fields) = 1
   \<and> num_people demo_fields = 3
   \<and> person_totals demo_fields = Some [(0, 1), (1, 1), (2, 1)]
   \<and> person_totals (butlast demo_fields) = Some [(0, 1), (1, 1), (2, 1)]
   \<and> entries demo_fields = Some [0, 1, 1, 1]"
  by code_simp




lemma textfield_step_get:
  "fst (textfield_step f st) k =
     (case search_int textfield_re 1 (f_name f) of
        Some i \<Rightarrow> if k = person_of_index i then fst st k @ [(i, f)] else fst st k
      | None \<Rightarrow> fst st k)"
  by (simp add: textfield_step_def Let_def split: option.splits)

lemma textfield_step_other:
  "snd (textfield_step f st) =
     (if search_int textfield_re 1 (f_name f) = None then snd st @ [f] else snd st)"
  by (auto simp: textfield_step_def Let_def split: option.splits)

lemma textfield_fold_mem:
  "((i, f) \<in> set (fst (fold textfield_step fs st) k)) =
     ((i, f) \<in> set (fst st k)
      \<or> (f \<in> set fs \<and> search_int textfield_re 1 (f_name f) = Some i \<and> person_of_index i = k))"
  by (induction fs arbitrary: st) (auto simp: textfield_step_get split: option.splits)

lemma textfield_fold_other:
  "snd (fold textfield_step fs st) =
     snd st @ filter (\<lambda>f. search_int textfield_re 1 (f_name f) = None) fs"
  by (induction fs arbitrary: st) (simp_all add: textfield_step_other)

lemma person_of_index_cases:
  "person_of_index i = 0 \<or> person_of_index i = 1 \<or> person_of_index i = 2 \<or> person_of_index i = 3"
  by (simp add: person_of_index_def)

lemma person_of_index_unknown: "(person_of_index i = 0) = (i < 0 \<or> 32 < i)"
  by (auto simp: person_of_index_def)

lemma counts_get_update:
  "counts_get (AList.update a v counts) b = (if b = a then v else counts_get counts b)"
  by (simp add: counts_get_def update_conv')

lemma area_count_step_get:
  "counts_get (area_count_step f counts) a =
     (if search_int area_re 1 (f_name f) = Some a then counts_get counts a + 1
      else counts_get counts a)"
  by (cases "search_int area_re 1 (f_name f)")
     (simp_all add: area_count_step_def counts_get_update counts_get_def [symmetric])

lemma area_count_fold_get:
  "counts_get (fold area_count_step xs counts) a =
     counts_get counts a + int (length (filter (\<lambda>f. search_int area_re 1 (f_name f) = Some a) xs))"
  by (induction xs arbitrary: counts) (simp_all add: area_count_step_get)

lemma rmatch_lit_prefix: "rmatch (Lit l # ps) g s = Some gs \<Longrightarrow> prefix l s"
  by (simp split: if_splits)

lemma re_search_lit_contains: "re_search (Lit l # ps) s = Some gs \<Longrightarrow> contains l s"
proof (induction s)
  case Nil
  then show ?case by (simp split: if_splits)
next
  case (Cons c cs)
  show ?case
  proof (cases "rmatch (Lit l # ps) None (c # cs)")
    case None
    then have "re_search (Lit l # ps) cs = Some gs"
      using Cons.prems by simp
    then show ?thesis using Cons.IH by simp
  next
    case (Some hs)
    then have "prefix l (c # cs)" by (rule rmatch_lit_prefix)
    then show ?thesis by simp
  qed
qed

lemma area_match_contains:
  assumes "search_int area_re 1 n = Some a"
  shows "contains ''#area['' n"
proof -
  obtain gs where "re_search area_re n = Some gs"
    using assms by (auto simp: search_int_def search_group_def split: option.splits)
  then show ?thesis
    unfolding area_re_def by (rule re_search_lit_contains)
qed

lemma counts_get_Nil: "counts_get [] a = 0"
  by (simp add: counts_get_def)

lemma area_counts_get:
  "counts_get (area_counts fs) a =
     int (length (filter (\<lambda>f. search_int area_re 1 (f_name f) = Some a) (section16_3_fields fs)))"
proof -
  have imp: "contains ''#area['' (f_name f)" if "search_int area_re 1 (f_name f) = Some a"
    for f :: pdf_field
    using that by (rule area_match_contains)
  have "filter (\<lambda>f. search_int area_re 1 (f_name f) = Some a) (area_fields fs)
      = filter (\<lambda>f. search_int area_re 1 (f_name f) = Some a) (section16_3_fields fs)"
    unfolding area_fields_def filter_filter
    by (rule filter_cong [OF refl]) (use imp in blast)
  then show ?thesis
    by (simp add: area_counts_def area_count_fold_get counts_get_Nil)
qed

lemma other_fields_eq:
  "other_fields fs =
     filter (\<lambda>f. search_int textfield_re 1 (f_name f) = None) (section16_3_fields fs)"
  by (simp add: other_fields_def textfield_loop_def textfield_fold_other)

lemma textfield_pattern_mem:
  "((i, f) \<in> set (textfield_pattern fs k)) =
     (f \<in> set (section16_3_fields fs) \<and> search_int textfield_re 1 (f_name f) = Some i
      \<and> person_of_index i = k)"
  by (simp add: textfield_pattern_def textfield_loop_def textfield_fold_mem)







text \<open>
  C3 (as amended). In \<^verbatim>\<open>verify_field_pattern\<close> every field of Section16\_3 whose name
  has a \<^verbatim>\<open>TextField11\<close> index is filed in exactly one bucket: that of person 1, 2 or 3
  by the range of the index, or the bucket 0 that the script calls "Unknown" when the
  index is outside 0..32; no person total reads bucket 0. A field without such an index
  gets no result of its own and no flag: it is one of the other fields, and the number of
  other fields, less the suffix, phone and area-marked fields, is divided by three and
  added to each person's total. A field with an area marker is also counted once for its
  area, whatever bucket it is filed in.
\<close>

theorem textfield_by_range_others_pooled:
  assumes "f \<in> set (section16_3_fields fs)"
  shows "(case search_int textfield_re 1 (f_name f) of
            Some i \<Rightarrow>
              (\<forall>k. ((i, f) \<in> set (textfield_pattern fs k)) = (k = person_of_index i))
              \<and> f \<notin> set (other_fields fs)
              \<and> person_of_index i \<in> {0, 1, 2, 3}
              \<and> ((person_of_index i = 0) = (i < 0 \<or> 32 < i))
          | None \<Rightarrow>
              f \<in> set (other_fields fs) \<and> (\<forall>i k. (i, f) \<notin> set (textfield_pattern fs k)))
       \<and> other_fields fs =
           filter (\<lambda>f. search_int textfield_re 1 (f_name f) = None) (section16_3_fields fs)
       \<and> (\<forall>a. counts_get (area_counts fs) a =
             int (length (filter (\<lambda>f. search_int area_re 1 (f_name f) = Some a)
                            (section16_3_fields fs))))
       \<and> (\<forall>k. person_total fs k =
             int (length (textfield_pattern fs k)) + counts_get (area_counts fs) (k - 1) + 3
               + (int (length (other_fields fs)) - int (length (suffix_fields fs))
                    - int (length (phone_fields fs)) - sum_list (map snd (area_counts fs))) div 3)"
proof -
  have a: "(case search_int textfield_re 1 (f_name f) of
            Some i \<Rightarrow>
              (\<forall>k. ((i, f) \<in> set (textfield_pattern fs k)) = (k = person_of_index i))
              \<and> f \<notin> set (other_fields fs)
              \<and> person_of_index i \<in> {0, 1, 2, 3}
              \<and> ((person_of_index i = 0) = (i < 0 \<or> 32 < i))
          | None \<Rightarrow>
              f \<in> set (other_fields fs) \<and> (\<forall>i k. (i, f) \<notin> set (textfield_pattern fs k)))"
  proof (cases "search_int textfield_re 1 (f_name f)")
    case None
    then show ?thesis
      using assms by (simp add: other_fields_eq textfield_pattern_mem)
  next
    case (Some i)
    have "person_of_index i \<in> {0, 1, 2, 3}"
      using person_of_index_cases [of i] by auto
    then show ?thesis
      using assms Some person_of_index_unknown [of i]
      by (auto simp: other_fields_eq textfield_pattern_mem)
  qed
  have d: "\<forall>k. person_total fs k =
             int (length (textfield_pattern fs k)) + counts_get (area_counts fs) (k - 1) + 3
               + (int (length (other_fields fs)) - int (length (suffix_fields fs))
                    - int (length (phone_fields fs)) - sum_list (map snd (area_counts fs))) div 3"
    by (simp add: person_total_def remaining_fields_def)
  show ?thesis
    using a d other_fields_eq [of fs] area_counts_get [of fs] by blast
qed

theorem textfield_by_range_others_pooled_witness:
  "unknown_field \<in> set (section16_3_fields [unknown_field])
   \<and> search_int textfield_re 1 (f_name unknown_field) = Some 40
   \<and> (40, unknown_field) \<in> set (textfield_pattern [unknown_field] 0)
   \<and> (40, unknown_field) \<notin> set (textfield_pattern [unknown_field] 1)
   \<and> (40, unknown_field) \<notin> set (textfield_pattern [unknown_field] 2)
   \<and> (40, unknown_field) \<notin> set (textfield_pattern [unknown_field] 3)
   \<and> unknown_field \<notin> set (other_fields [unknown_field])
   \<and> person_of_index 40 = 0"
proof -
  have h1: "unknown_field \<in> set (section16_3_fields [unknown_field])"
    by code_simp
  have h2: "search_int textfield_re 1 (f_name unknown_field) = Some 40"
    by code_simp
  show ?thesis
    using textfield_by_range_others_pooled [OF h1] h1 h2
    by (simp add: person_of_index_def)
qed

text \<open>
  C3 (as stated) fails: three fields with no \<^verbatim>\<open>TextField11\<close> index and no area marker
  are not flagged (the unknown bucket stays empty) and raise the total of each of the
  three persons from 3 to 4.
\<close>

theorem untagged_fields_spread_over_persons_counterexample:
  "map (\<lambda>f. search_int textfield_re 1 (f_name f)) pool_fields = [None, None, None]
   \<and> map (\<lambda>f. search_int area_re 1 (f_name f)) pool_fields = [None, None, None]
   \<and> section16_3_fields pool_fields = pool_fields
   \<and> textfield_pattern pool_fields 0 = []
   \<and> map (person_total []) [1, 2, 3] = [3, 3, 3]
   \<and> map (person_total pool_fields) [1, 2, 3] = [4, 4, 4]"
  by code_simp

section \<open>Properties of the mapping loop of generate-field-mappings.py\<close>

lemma names_Nil: "names [] = []"
  by (simp add: names_def)

lemma names_Cons: "names (x # xs) = (case x of None \<Rightarrow> names xs | Some n \<Rightarrow> n # names xs)"
  by (simp add: names_def split: option.splits)

lemma mset_names: "mset (names fs) = image_mset the (filter_mset (\<lambda>x. x \<noteq> None) (mset fs))"
  by (simp add: names_def map_filter_def)

lemma main_step_None: "main_step None st = st"
  by (simp add: main_step_def)

lemma main_step_mapped:
  "is_mapped n \<Longrightarrow> generate_logical_path n = Some p \<Longrightarrow>
     main_step (Some n) st =
       st\<lparr>mappings := (mappings st)(p \<mapsto> n),
          section_stats := (section_stats st)(stats_key n := section_stats st (stats_key n) + 1)\<rparr>"
  by (simp add: main_step_def is_mapped_def)

lemma main_step_unmapped:
  "\<not> is_mapped n \<Longrightarrow>
     main_step (Some n) st = st\<lparr>unmapped_fields := unmapped_fields st @ [n]\<rparr>"
  by (simp add: main_step_def is_mapped_def split: option.splits)

lemma is_mappedD: "is_mapped n \<Longrightarrow> \<exists>p. generate_logical_path n = Some p \<and> p \<noteq> []"
  by (simp add: is_mapped_def split: option.splits)

lemma fold_unmapped:
  "unmapped_fields (fold main_step fs st) =
     unmapped_fields st @ filter (\<lambda>n. \<not> is_mapped n) (names fs)"
proof (induction fs arbitrary: st)
  case Nil
  then show ?case by (simp add: names_Nil)
next
  case (Cons x xs)
  show ?case
  proof (cases x)
    case None
    then show ?thesis by (simp add: Cons.IH main_step_None names_Cons)
  next
    case (Some n)
    show ?thesis
    proof (cases "is_mapped n")
      case True
      then obtain p where "generate_logical_path n = Some p" using is_mappedD by blast
      then show ?thesis using True Some
        by (simp add: Cons.IH main_step_mapped names_Cons)
    next
      case False
      then show ?thesis using Some
        by (simp add: Cons.IH main_step_unmapped names_Cons)
    qed
  qed
qed

lemma fold_stats:
  "section_stats (fold main_step fs st) k =
     section_stats st k + length (filter (\<lambda>n. is_mapped n \<and> stats_key n = k) (names fs))"
proof (induction fs arbitrary: st)
  case Nil
  then show ?case by (simp add: names_Nil)
next
  case (Cons x xs)
  show ?case
  proof (cases x)
    case None
    then show ?thesis by (simp add: Cons.IH main_step_None names_Cons)
  next
    case (Some n)
    show ?thesis
    proof (cases "is_mapped n")
      case True
      then obtain p where "generate_logical_path n = Some p" using is_mappedD by blast
      then show ?thesis using True Some
        by (simp add: Cons.IH main_step_mapped names_Cons)
    next
      case False
      then show ?thesis using Some
        by (simp add: Cons.IH main_step_unmapped names_Cons)
    qed
  qed
qed

lemma last_name_for_Nil: "last_name_for p [] = None"
  by (simp add: last_name_for_def)

lemma last_name_for_Cons:
  "last_name_for p (n # ns) =
     (case last_name_for p ns of
        Some m \<Rightarrow> Some m
      | None \<Rightarrow> if is_mapped n \<and> generate_logical_path n = Some p then Some n else None)"
  by (auto simp: last_name_for_def split: list.splits)

lemma fold_mappings:
  "mappings (fold main_step fs st) p =
     (case last_name_for p (names fs) of None \<Rightarrow> mappings st p | Some n \<Rightarrow> Some n)"
proof (induction fs arbitrary: st)
  case Nil
  then show ?case by (simp add: names_Nil last_name_for_Nil)
next
  case (Cons x xs)
  show ?case
  proof (cases x)
    case None
    then show ?thesis by (simp add: Cons.IH main_step_None names_Cons)
  next
    case (Some n)
    show ?thesis
    proof (cases "is_mapped n")
      case True
      then obtain q where "generate_logical_path n = Some q" using is_mappedD by blast
      then show ?thesis using True Some
        by (simp add: Cons.IH main_step_mapped names_Cons last_name_for_Cons split: option.splits)
    next
      case False
      then show ?thesis using Some
        by (simp add: Cons.IH main_step_unmapped names_Cons last_name_for_Cons split: option.splits)
    qed
  qed
qed

lemma main_loop_mappings: "mappings (main_loop fs) p = last_name_for p (names fs)"
  by (simp add: main_loop_def fold_mappings main_init_def split: option.splits)

lemma main_loop_unmapped:
  "unmapped_fields (main_loop fs) = filter (\<lambda>n. \<not> is_mapped n) (names fs)"
  by (simp add: main_loop_def fold_unmapped main_init_def)

lemma main_loop_stats:
  "section_stats (main_loop fs) k =
     length (filter (\<lambda>n. is_mapped n \<and> stats_key n = k) (names fs))"
  by (simp add: main_loop_def fold_stats main_init_def)

lemma last_name_for_Some:
  "last_name_for p ns = Some n \<Longrightarrow> n \<in> set ns \<and> is_mapped n \<and> generate_logical_path n = Some p"
proof -
  assume a: "last_name_for p ns = Some n"
  let ?l = "filter (\<lambda>n. is_mapped n \<and> generate_logical_path n = Some p) ns"
  from a have ne: "?l \<noteq> []" and l: "n = last ?l"
    by (auto simp: last_name_for_def split: list.splits)
  then have "n \<in> set ?l" using last_in_set by blast
  then show ?thesis by simp
qed

lemma last_name_for_None:
  "(last_name_for p ns = None) = (\<forall>n \<in> set ns. \<not> (is_mapped n \<and> generate_logical_path n = Some p))"
proof -
  have "(last_name_for p ns = None)
          = (filter (\<lambda>n. is_mapped n \<and> generate_logical_path n = Some p) ns = [])"
    by (simp add: last_name_for_def split: list.splits)
  then show ?thesis by (simp add: filter_empty_conv)
qed

lemma dom_mappings:
  "dom (mappings (main_loop fs)) =
     {p. \<exists>n \<in> set (names fs). is_mapped n \<and> generate_logical_path n = Some p}"
proof -
  have "(mappings (main_loop fs) p \<noteq> None) =
          (\<exists>n \<in> set (names fs). is_mapped n \<and> generate_logical_path n = Some p)" for p
    by (simp add: main_loop_mappings last_name_for_None)
  then show ?thesis by (auto simp: dom_def)
qed

lemma glp_base: "generate_logical_path base_name = Some first_name_path"
  by code_simp

lemma glp_additional: "generate_logical_path additional_name = Some first_name_path"
  by code_simp

lemma glp_last:
  "generate_logical_path last_name = Some ''section13.unemployment.entries[0].lastName.value''"
  by code_simp

lemma glp_unmapped: "generate_logical_path unmapped_name = None"
  by code_simp

lemma first_name_path_nonempty: "first_name_path \<noteq> []"
  by (simp add: first_name_path_def)

lemma base_not_additional: "base_name \<noteq> additional_name"
  by (simp add: base_name_def additional_name_def)

lemma last_name_for_base_additional:
  "last_name_for first_name_path [base_name, additional_name] = Some additional_name"
  by (simp add: last_name_for_Cons last_name_for_Nil is_mapped_def
      glp_base glp_additional first_name_path_nonempty)

lemma last_name_for_additional_base:
  "last_name_for first_name_path [additional_name, base_name] = Some base_name"
  by (simp add: last_name_for_Cons last_name_for_Nil is_mapped_def
      glp_base glp_additional first_name_path_nonempty)

text \<open>
  C1 (as amended). The loop of \<^verbatim>\<open>main\<close> keeps one raw name per logical path, the last
  one of the batch that resolves to it: a later name replaces an earlier one under the
  same path. The state of the loop has the mapping, the list of unmapped names and the
  section counters, and no list of collisions; the keys of the mapping are exactly the
  logical paths of the names of the batch.
\<close>

theorem later_name_overwrites_earlier:
  "mappings (main_loop fs) p = last_name_for p (names fs)
   \<and> dom (mappings (main_loop fs)) =
       {p. \<exists>n \<in> set (names fs). is_mapped n \<and> generate_logical_path n = Some p}
   \<and> unmapped_fields (main_loop fs) = filter (\<lambda>n. \<not> is_mapped n) (names fs)"
  by (simp add: main_loop_mappings dom_mappings main_loop_unmapped)

theorem later_name_overwrites_earlier_witness:
  "mappings (main_loop [Some base_name, Some additional_name]) first_name_path
     = Some additional_name"
  using later_name_overwrites_earlier
          [of "[Some base_name, Some additional_name]" first_name_path]
  by (simp add: names_Cons names_Nil last_name_for_base_additional)

text \<open>
  C1 (as stated) fails: two distinct raw names resolve to the same logical path, the
  mapping keeps the later one only, and nothing else in the result records the earlier
  one or the collision.
\<close>

theorem collision_silently_overwritten_counterexample:
  "base_name \<noteq> additional_name
   \<and> generate_logical_path base_name = Some first_name_path
   \<and> generate_logical_path additional_name = Some first_name_path
   \<and> mappings (main_loop [Some base_name, Some additional_name]) first_name_path
       = Some additional_name
   \<and> unmapped_fields (main_loop [Some base_name, Some additional_name]) = []"
  by (simp add: base_not_additional glp_base glp_additional main_loop_mappings
      last_name_for_base_additional main_loop_unmapped names_Cons names_Nil is_mapped_def
      first_name_path_nonempty)

lemma inj_mappings:
  assumes inj: "inj_on generate_logical_path {n \<in> set ns. is_mapped n}"
  shows "(last_name_for p ns = Some n) = (n \<in> set ns \<and> is_mapped n \<and> generate_logical_path n = Some p)"
proof
  assume "last_name_for p ns = Some n"
  then show "n \<in> set ns \<and> is_mapped n \<and> generate_logical_path n = Some p"
    by (rule last_name_for_Some)
next
  assume r: "n \<in> set ns \<and> is_mapped n \<and> generate_logical_path n = Some p"
  then have "last_name_for p ns \<noteq> None"
    by (auto simp: last_name_for_None)
  then obtain m where m: "last_name_for p ns = Some m" by auto
  from last_name_for_Some [OF m] r inj have "m = n"
    by (auto simp: inj_on_def)
  with m show "last_name_for p ns = Some n" by simp
qed

text \<open>
  C5 (as amended). For two batches that are permutations of each other the loop of
  \<^verbatim>\<open>main\<close> yields the same unmapped names up to order, the same section counters and
  the same set of mapped logical paths; the mapping itself is the same whenever no two
  distinct names of the batch resolve to the same logical path. The logical path of a
  name is a function of that name alone.
\<close>

theorem permutation_invariance_up_to_collisions:
  assumes "mset fs = mset fs'"
  shows "mset (unmapped_fields (main_loop fs)) = mset (unmapped_fields (main_loop fs'))
       \<and> section_stats (main_loop fs) = section_stats (main_loop fs')
       \<and> dom (mappings (main_loop fs)) = dom (mappings (main_loop fs'))
       \<and> (inj_on generate_logical_path {n \<in> set (names fs). is_mapped n}
            \<longrightarrow> mappings (main_loop fs) = mappings (main_loop fs'))"
proof -
  have ms: "mset (names fs) = mset (names fs')"
    by (simp add: mset_names assms)
  then have st: "set (names fs) = set (names fs')"
    by (rule mset_eq_setD)
  have a: "mset (unmapped_fields (main_loop fs)) = mset (unmapped_fields (main_loop fs'))"
    by (simp add: main_loop_unmapped ms)
  have "section_stats (main_loop fs) k = section_stats (main_loop fs') k" for k
  proof -
    have "length (filter P ns) = size (filter_mset P (mset ns))" for P and ns :: "string list"
      by (metis mset_filter size_mset)
    then show ?thesis by (simp add: main_loop_stats ms)
  qed
  then have b: "section_stats (main_loop fs) = section_stats (main_loop fs')"
    by (rule ext)
  have c: "dom (mappings (main_loop fs)) = dom (mappings (main_loop fs'))"
    by (simp add: dom_mappings st)
  have d: "mappings (main_loop fs) = mappings (main_loop fs')"
    if inj: "inj_on generate_logical_path {n \<in> set (names fs). is_mapped n}"
  proof (rule ext)
    fix p
    have inj': "inj_on generate_logical_path {n \<in> set (names fs'). is_mapped n}"
      using inj st by simp
    have "(last_name_for p (names fs) = Some n) = (last_name_for p (names fs') = Some n)" for n
      by (simp add: inj_mappings [OF inj] inj_mappings [OF inj'] st)
    then have "last_name_for p (names fs) = last_name_for p (names fs')"
      by (metis option.exhaust)
    then show "mappings (main_loop fs) p = mappings (main_loop fs') p"
      by (simp add: main_loop_mappings)
  qed
  show ?thesis using a b c d by blast
qed


theorem permutation_invariance_up_to_collisions_witness:
  "mset [Some base_name, None, Some last_name, Some unmapped_name]
     = mset [Some unmapped_name, Some last_name, Some base_name, None]
   \<and> inj_on generate_logical_path
        {n \<in> set (names [Some base_name, None, Some last_name, Some unmapped_name]). is_mapped n}
   \<and> mappings (main_loop [Some base_name, None, Some last_name, Some unmapped_name])
       = mappings (main_loop [Some unmapped_name, Some last_name, Some base_name, None])
   \<and> section_stats (main_loop [Some base_name, None, Some last_name, Some unmapped_name])
       = section_stats (main_loop [Some unmapped_name, Some last_name, Some base_name, None])"
proof -
  have h: "mset [Some base_name, None, Some last_name, Some unmapped_name]
             = mset [Some unmapped_name, Some last_name, Some base_name, None]"
    by (simp add: add_mset_commute)
  have i: "inj_on generate_logical_path
        {n \<in> set (names [Some base_name, None, Some last_name, Some unmapped_name]). is_mapped n}"
    by (auto simp: inj_on_def names_Cons names_Nil is_mapped_def glp_base glp_last glp_unmapped
        first_name_path_def)
  show ?thesis
    using permutation_invariance_up_to_collisions [OF h] h i by blast
qed

text \<open>
  C5 (as stated) fails: with two names that resolve to the same logical path, the two
  orders of the batch give two different mappings.
\<close>

theorem mapping_depends_on_order_counterexample:
  "mset [Some base_name, Some additional_name] = mset [Some additional_name, Some base_name]
   \<and> base_name \<noteq> additional_name
   \<and> mappings (main_loop [Some base_name, Some additional_name]) first_name_path
       = Some additional_name
   \<and> mappings (main_loop [Some additional_name, Some base_name]) first_name_path
       = Some base_name"
  by (simp add: base_not_additional main_loop_mappings names_Cons names_Nil
      last_name_for_base_additional last_name_for_additional_base add_mset_commute)

section \<open>Properties of generate\_logical\_path\<close>

lemma contains_prefix_mono: "prefix a b \<Longrightarrow> contains b s \<Longrightarrow> contains a s"
proof (induction s)
  case Nil
  then show ?case by simp
next
  case (Cons c cs)
  then show ?case by (auto dest: prefix_order.trans)
qed

lemma mapped_prefix: "mapped re k n m pre = Some p \<Longrightarrow> prefix pre p"
  by (auto simp: mapped_def split: option.splits)

lemma numbered_prefix: "numbered re k n pre = Some p \<Longrightarrow> prefix pre p"
  by (auto simp: numbered_def split: option.splits)

lemma table_path_prefix: "table_path n pre = Some p \<Longrightarrow> prefix pre p"
  by (auto simp: table_path_def split: option.splits list.splits)

lemma prefix_lit: "prefix b p \<Longrightarrow> prefix a b \<Longrightarrow> prefix a p"
  by (rule prefix_order.trans)

lemma unemployment_prefix:
  "unemployment n = Some p \<Longrightarrow> prefix ''section13.unemployment.entries[0].'' p"
  by (auto simp: unemployment_def Let_def split: if_splits option.splits list.splits
      dest!: mapped_prefix numbered_prefix elim: prefix_lit)

lemma default_fallback_prefix:
  "default_fallback n = Some p \<Longrightarrow> prefix ''section13.section'' p"
  by (auto simp: default_fallback_def Let_def table_path_def
      split: if_splits option.splits list.splits)

lemma federal_prefix:
  "federal_employment n = Some p \<Longrightarrow> prefix ''section13.federalEmployment.entries[0].'' p"
  by (auto simp: federal_employment_def Let_def split: if_splits
      dest!: mapped_prefix numbered_prefix elim: prefix_lit)

lemma non_federal_prefix:
  "non_federal_employment n = Some p \<Longrightarrow> prefix ''section13.nonFederalEmployment.entries[0].'' p"
  by (auto simp: non_federal_employment_def Let_def split: if_splits
      dest!: mapped_prefix numbered_prefix table_path_prefix elim: prefix_lit)

lemma self_prefix:
  "self_employment n = Some p \<Longrightarrow> prefix ''section13.selfEmployment.entries[0].'' p"
  by (auto simp: self_employment_def Let_def split: if_splits
      dest!: mapped_prefix numbered_prefix elim: prefix_lit)

lemma issues_area_prefix:
  "employment_issues_area n = Some p \<Longrightarrow> prefix ''section13.employmentRecordIssues.'' p"
  by (auto simp: employment_issues_area_def Let_def numbered_def split: if_splits option.splits)

lemma issues_prefix:
  "employment_issues n = Some p \<Longrightarrow> prefix ''section13.employmentRecordIssues.'' p"
  by (auto simp: employment_issues_def Let_def split: if_splits
      dest!: mapped_prefix numbered_prefix issues_area_prefix elim: prefix_lit)

lemma additional_prefix:
  "generate_additional_section_mapping n sp = Some p \<Longrightarrow>
     prefix (''section13.'' @ sp @ ''.entries[0].'') p"
  by (auto simp: generate_additional_section_mapping_def Let_def split: if_splits
      dest!: mapped_prefix numbered_prefix table_path_prefix elim: prefix_lit)


lemma first_some_SomeD: "first_some f xs = Some y \<Longrightarrow> \<exists>x \<in> set xs. f x = Some y"
  by (induction xs) (auto split: option.splits)

lemma first_some_Cons_Some: "f x = Some y \<Longrightarrow> first_some f (x # xs) = Some y"
  by simp

lemma rmatch_close: "rmatch [GClose] (Some s0) s = Some [take (length s0 - length s) s0]"
  by simp

lemma rmatch_dash_digits_close:
  "rmatch [Lit ''-'', Digits, GClose] (Some s0) s = Some gs \<Longrightarrow> length gs = 1"
  by (auto split: if_splits dest!: first_some_SomeD)

lemma rmatch_opt_close:
  "\<exists>g. rmatch [Opt [Lit ''-'', Digits], GClose] (Some s0) s = Some [g]"
proof (cases "rmatch [Lit ''-'', Digits, GClose] (Some s0) s")
  case None
  then show ?thesis by simp
next
  case (Some gs)
  then have "length gs = 1" by (rule rmatch_dash_digits_close)
  then obtain g where "gs = [g]" by (cases gs) auto
  then show ?thesis using Some by simp
qed

lemma rmatch_group_digit:
  assumes "is_digit c"
  shows "\<exists>g. rmatch [GOpen, Digits, Opt [Lit ''-'', Digits], GClose] None (c # r) = Some [g]"
proof -
  let ?s = "c # r"
  let ?k = "length (takeWhile is_digit r)"
  have tw: "length (takeWhile is_digit ?s) = Suc ?k"
    using assms by simp
  obtain g where g: "rmatch [Opt [Lit ''-'', Digits], GClose] (Some ?s) (drop (Suc ?k) ?s) = Some [g]"
    using rmatch_opt_close by blast
  have "rev [1..<Suc (Suc ?k)] = Suc ?k # rev [1..<Suc ?k]"
    by simp
  then have "rmatch [Digits, Opt [Lit ''-'', Digits], GClose] (Some ?s) ?s = Some [g]"
    using g by (simp only: rmatch.simps tw first_some.simps option.case)
  then show ?thesis by simp
qed

lemma rmatch_group_single:
  "rmatch [GOpen, Digits, Opt [Lit ''-'', Digits], GClose] None s = Some gs \<Longrightarrow> length gs = 1"
proof -
  assume "rmatch [GOpen, Digits, Opt [Lit ''-'', Digits], GClose] None s = Some gs"
  then have "first_some (\<lambda>n. rmatch [Opt [Lit ''-'', Digits], GClose] (Some s) (drop n s))
               (rev [1..<Suc (length (takeWhile is_digit s))]) = Some gs"
    by simp
  then obtain n where "rmatch [Opt [Lit ''-'', Digits], GClose] (Some s) (drop n s) = Some gs"
    using first_some_SomeD by fast
  then show ?thesis using rmatch_opt_close [of s "drop n s"] by auto
qed

lemma rmatch_section_num_single:
  "rmatch section_num_re None s = Some gs \<Longrightarrow> length gs = 1"
  by (auto simp: section_num_re_def split: if_splits option.splits list.splits
      dest!: rmatch_group_single)

lemma rmatch_section_num_prefix:
  assumes "prefix ''section13_4'' s"
  shows "\<exists>g. rmatch section_num_re None s = Some [g]"
proof -
  obtain r where s: "s = ''section13_4'' @ r"
    using assms by (auto elim: prefixE)
  have d: "is_digit CHR ''4''" by (simp add: is_digit_def)
  obtain g where "rmatch [GOpen, Digits, Opt [Lit ''-'', Digits], GClose] None (CHR ''4'' # r) = Some [g]"
    using rmatch_group_digit [OF d] by blast
  then have "rmatch section_num_re None s = Some [g]"
    by (simp add: s section_num_re_def del: rmatch.simps(4,6,7) add: rmatch.simps(6) [of "[Class ''_-'']"])
  then show ?thesis by blast
qed

lemma re_search_section_num_single:
  "re_search section_num_re s = Some gs \<Longrightarrow> length gs = 1"
  by (induction s) (auto split: option.splits dest: rmatch_section_num_single)

lemma re_search_section_num:
  "contains ''section13_4'' s \<Longrightarrow> \<exists>g. re_search section_num_re s = Some [g]"
proof (induction s)
  case Nil
  then show ?case by simp
next
  case (Cons c cs)
  show ?case
  proof (cases "rmatch section_num_re None (c # cs)")
    case (Some gs)
    then have "length gs = 1" by (rule rmatch_section_num_single)
    then obtain g where "gs = [g]" by (cases gs) auto
    then show ?thesis using Some by simp
  next
    case None
    then have "\<not> prefix ''section13_4'' (c # cs)"
      using rmatch_section_num_prefix by fastforce
    then have "contains ''section13_4'' cs"
      using Cons.prems by (simp only: contains.simps) blast
    then show ?thesis using Cons.IH None by simp
  qed
qed

lemma section_id_exists:
  "contains ''section13_4'' s \<Longrightarrow> \<exists>g. search_group section_num_re 1 s = Some g"
  using re_search_section_num [of s] by (auto simp: search_group_def group_def)

lemma default_fallback_Some:
  "search_group section_num_re 1 n = Some g \<Longrightarrow> \<exists>p. default_fallback n = Some p"
  by (simp add: default_fallback_def Let_def split: option.splits)

lemma or_fallback_cases:
  "or_fallback r n = Some p \<Longrightarrow> r = Some p \<or> default_fallback n = Some p"
  by (auto simp: or_fallback_def split: option.splits)

lemma prefix_clash: "prefix a p \<Longrightarrow> prefix b p \<Longrightarrow> \<not> prefix a b \<Longrightarrow> \<not> prefix b a \<Longrightarrow> False"
  using prefix_same_cases by blast

lemma not_unemployment_additional:
  assumes "generate_logical_path n = Some p"
  shows "\<not> prefix ''section13.unemploymentAdditional'' p"
proof
  assume u: "prefix ''section13.unemploymentAdditional'' p"
  have sub: "contains ''section13_4_3'' n \<Longrightarrow> contains ''section13_4'' n"
    by (rule contains_prefix_mono) simp_all
  from assms consider
      (fed) "federal_employment n = Some p"
    | (non) "non_federal_employment n = Some p"
    | (self) "self_employment n = Some p"
    | (unemp) "unemployment n = Some p"
    | (iss) "employment_issues n = Some p"
    | (add2) "generate_additional_section_mapping n ''nonFederalEmploymentAdditional'' = Some p"
    | (add3) "generate_additional_section_mapping n ''selfEmploymentAdditional'' = Some p"
    | (dflt) "default_fallback n = Some p"
    using sub
    by (auto simp: generate_logical_path_def split: if_splits dest!: or_fallback_cases)
  then show False
  proof cases
    case fed
    from prefix_clash [OF federal_prefix [OF fed] u] show False by simp
  next
    case non
    from prefix_clash [OF non_federal_prefix [OF non] u] show False by simp
  next
    case self
    from prefix_clash [OF self_prefix [OF self] u] show False by simp
  next
    case unemp
    from prefix_clash [OF unemployment_prefix [OF unemp] u] show False by simp
  next
    case iss
    from prefix_clash [OF issues_prefix [OF iss] u] show False by simp
  next
    case add2
    from prefix_clash [OF additional_prefix [OF add2] u] show False by simp
  next
    case add3
    from prefix_clash [OF additional_prefix [OF add3] u] show False by simp
  next
    case dflt
    from prefix_clash [OF default_fallback_prefix [OF dflt] u] show False by simp
  qed
qed

text \<open>
  C10 (as amended). A name that contains \<^verbatim>\<open>section13_4_3\<close> also contains
  \<^verbatim>\<open>section13_4\<close>, so the branch for the additional unemployment forms is never
  reached and no result lies under \<^verbatim>\<open>section13.unemploymentAdditional\<close>. Unless an
  earlier branch of the chain takes the name, it is handled by the unemployment branch;
  when that branch returns nothing the default fallback answers, so the result exists and
  lies under \<^verbatim>\<open>section13.unemployment.entries[0].\<close> or under \<^verbatim>\<open>section13.section\<close>. A
  name of the base form and a name of the additional form get the same logical path.
\<close>

theorem additional_unemployment_branch_is_dead:
  assumes "contains ''section13_4_3'' n"
  shows "(\<forall>p. generate_logical_path n = Some p
            \<longrightarrow> \<not> prefix ''section13.unemploymentAdditional'' p)
       \<and> (2 \<le> length (py_split CHR ''.'' n)
          \<and> \<not> contains ''section_13_1-2'' n
          \<and> (contains ''section13_2'' n \<longrightarrow> contains ''section13_2-2'' n)
          \<and> (contains ''section13_3'' n \<longrightarrow> contains ''section13_3-2'' n)
          \<longrightarrow> generate_logical_path n = or_fallback (unemployment n) n
              \<and> (\<exists>p. generate_logical_path n = Some p
                     \<and> (prefix ''section13.unemployment.entries[0].'' p
                          \<or> prefix ''section13.section'' p)))
       \<and> base_name \<noteq> additional_name
       \<and> generate_logical_path base_name = generate_logical_path additional_name"
proof -
  have c4: "contains ''section13_4'' n"
    using assms by (rule contains_prefix_mono [rotated]) simp
  have a: "\<forall>p. generate_logical_path n = Some p
            \<longrightarrow> \<not> prefix ''section13.unemploymentAdditional'' p"
    using not_unemployment_additional by blast
  have b: "generate_logical_path n = or_fallback (unemployment n) n
              \<and> (\<exists>p. generate_logical_path n = Some p
                     \<and> (prefix ''section13.unemployment.entries[0].'' p
                          \<or> prefix ''section13.section'' p))"
    if h: "2 \<le> length (py_split CHR ''.'' n)" "\<not> contains ''section_13_1-2'' n"
      "contains ''section13_2'' n \<longrightarrow> contains ''section13_2-2'' n"
      "contains ''section13_3'' n \<longrightarrow> contains ''section13_3-2'' n"
  proof -
    have e: "generate_logical_path n = or_fallback (unemployment n) n"
      using h c4 by (auto simp: generate_logical_path_def)
    obtain g where "search_group section_num_re 1 n = Some g"
      using section_id_exists [OF c4] by blast
    then obtain q where q: "default_fallback n = Some q"
      using default_fallback_Some by blast
    have "\<exists>p. or_fallback (unemployment n) n = Some p
            \<and> (prefix ''section13.unemployment.entries[0].'' p \<or> prefix ''section13.section'' p)"
    proof (cases "unemployment n")
      case None
      then show ?thesis using q default_fallback_prefix [OF q] by (simp add: or_fallback_def)
    next
      case (Some p)
      then show ?thesis using unemployment_prefix [OF Some] by (simp add: or_fallback_def)
    qed
    then show ?thesis using e by simp
  qed
  have c: "base_name \<noteq> additional_name
       \<and> generate_logical_path base_name = generate_logical_path additional_name"
    by (simp add: base_not_additional glp_base glp_additional)
  show ?thesis using a b c by blast
qed

theorem additional_unemployment_branch_is_dead_witness:
  "contains ''section13_4_3'' additional_name
   \<and> 2 \<le> length (py_split CHR ''.'' additional_name)
   \<and> \<not> contains ''section_13_1-2'' additional_name
   \<and> \<not> contains ''section13_2'' additional_name
   \<and> \<not> contains ''section13_3'' additional_name
   \<and> generate_logical_path additional_name
       = or_fallback (unemployment additional_name) additional_name
   \<and> \<not> prefix ''section13.unemploymentAdditional'' first_name_path"
proof -
  have h: "contains ''section13_4_3'' additional_name"
    by code_simp
  have h1: "2 \<le> length (py_split CHR ''.'' additional_name)"
    by code_simp
  have h2: "\<not> contains ''section_13_1-2'' additional_name"
    by code_simp
  have h3: "\<not> contains ''section13_2'' additional_name"
    by code_simp
  have h4: "\<not> contains ''section13_3'' additional_name"
    by code_simp
  show ?thesis
    using additional_unemployment_branch_is_dead [OF h] h h1 h2 h3 h4 glp_additional
    by auto
qed

text \<open>
  C10 (as stated) fails in one part: a logical path produced for a name with
  \<^verbatim>\<open>section13_4_3\<close> need not lie under \<^verbatim>\<open>section13.unemployment.entries[0]\<close>. An
  index outside the table of the unemployment branch falls through to the default
  fallback.
\<close>

theorem section13_4_3_outside_unemployment_counterexample:
  "contains ''section13_4_3'' fallthrough_name
   \<and> generate_logical_path fallthrough_name = Some ''section13.section4.textField50.value''
   \<and> \<not> prefix ''section13.unemployment.entries[0]'' ''section13.section4.textField50.value''"
  by code_simp

lemma py_str_0: "py_str 0 = ''0''"
  by (simp add: py_str_def str_nat.simps)

lemma no_tag_federal: "no_type_tag n \<Longrightarrow> federal_employment n = None"
  by (simp add: no_type_tag_def federal_employment_def)

lemma no_tag_non_federal: "no_type_tag n \<Longrightarrow> non_federal_employment n = None"
  by (simp add: no_type_tag_def non_federal_employment_def)

lemma no_tag_self: "no_type_tag n \<Longrightarrow> self_employment n = None"
  by (simp add: no_type_tag_def self_employment_def)

lemma no_tag_unemployment: "no_type_tag n \<Longrightarrow> unemployment n = None"
  by (simp add: no_type_tag_def unemployment_def)

lemma no_tag_issues: "no_type_tag n \<Longrightarrow> employment_issues n = None"
  by (simp add: no_type_tag_def employment_issues_def)

lemma no_tag_additional: "no_type_tag n \<Longrightarrow> generate_additional_section_mapping n sp = None"
  by (simp add: no_type_tag_def generate_additional_section_mapping_def)

lemma no_tag_fallback:
  "no_type_tag n \<Longrightarrow>
     default_fallback n =
       (case search_group section_num_re 1 n of
          None \<Rightarrow> None
        | Some section_id \<Rightarrow> Some (''section13.section'' @ section_id @ ''.unknown0.value''))"
  by (simp add: no_type_tag_def default_fallback_def py_str_0 split: option.splits)

text \<open>
  C6 (as amended). For a name that carries none of the widget tags,
  \<^verbatim>\<open>generate_logical_path\<close> returns nothing when the name has no dot, when it reaches a
  branch for the additional forms, or when it has no \<^verbatim>\<open>section13\<close> number; otherwise
  it returns the fallback path with the type \<^verbatim>\<open>unknown\<close> and the index 0.
\<close>

theorem undecomposable_name_gets_unknown0_or_nothing:
  assumes "no_type_tag n"
  shows "generate_logical_path n =
     (if length (py_split CHR ''.'' n) < 2 then None
      else if reaches_additional_form n then None
      else (case search_group section_num_re 1 n of
              None \<Rightarrow> None
            | Some section_id \<Rightarrow> Some (''section13.section'' @ section_id @ ''.unknown0.value'')))"
proof -
  have sub: "contains ''section13_4_3'' n \<Longrightarrow> contains ''section13_4'' n"
    by (rule contains_prefix_mono) simp_all
  have s2: "contains ''section13_2-2'' n \<Longrightarrow> contains ''section13_2'' n"
    by (rule contains_prefix_mono) simp_all
  have s3: "contains ''section13_3-2'' n \<Longrightarrow> contains ''section13_3'' n"
    by (rule contains_prefix_mono) simp_all
  show ?thesis
    using sub s2 s3
    by (auto simp: generate_logical_path_def reaches_additional_form_def or_fallback_def
        no_tag_federal [OF assms] no_tag_non_federal [OF assms] no_tag_self [OF assms]
        no_tag_unemployment [OF assms] no_tag_issues [OF assms] no_tag_additional [OF assms]
        no_tag_fallback [OF assms])
qed


theorem undecomposable_name_gets_unknown0_or_nothing_witness:
  "no_type_tag untagged_name
   \<and> generate_logical_path untagged_name = Some ''section13.section9.unknown0.value''"
proof -
  have h: "no_type_tag untagged_name"
    by code_simp
  have a: "\<not> length (py_split CHR ''.'' untagged_name) < 2"
    by code_simp
  have b: "\<not> reaches_additional_form untagged_name"
    by code_simp
  have c: "search_group section_num_re 1 untagged_name = Some ''9''"
    by code_simp
  show ?thesis
    using undecomposable_name_gets_unknown0_or_nothing [OF h] h a b c by simp
qed

text \<open>
  C6 (as stated) fails: the fallback index of a name without a known tag is 0, not
  \<open>-1\<close>, and a name without a \<^verbatim>\<open>section13\<close> number, or without a dot, gets no result
  at all.
\<close>

theorem unknown_index_is_zero_counterexample:
  "generate_logical_path untagged_name = Some ''section13.section9.unknown0.value''
   \<and> generate_logical_path ''form1[0].Sections1-6[0].Signature[3]'' = None
   \<and> generate_logical_path ''Signature'' = None"
  by code_simp

section \<open>Properties of verify\_coverage\<close>















section \<open>Properties of the grouping of generate\_section16\_interfaces.py\<close>

lemma fold_group_get:
  "dd_get (fold (\<lambda>item groups. dd_append (key item) item groups) fs g) k =
     dd_get g k @ filter (\<lambda>item. key item = k) fs"
  by (induction fs arbitrary: g) (simp_all add: dd_get_append)

lemma analyze_3_get:
  "dd_get (analyze_section16_3_fields fs) k =
     filter (\<lambda>item. section16_3_group (fst item) (snd item) = k) fs"
  by (simp add: analyze_section16_3_fields_def fold_group_get) (simp add: dd_get_def)

lemma analyze_1_get:
  "dd_get (analyze_section16_1_fields fs) k =
     filter (\<lambda>item. section16_1_group (fst item) (snd item) = k) fs"
  by (simp add: analyze_section16_1_fields_def fold_group_get) (simp add: dd_get_def)

lemma group_3_cong:
  "same_name_and_label a b \<Longrightarrow>
     section16_3_group (fst a) (snd a) = section16_3_group (fst b) (snd b)"
  by (simp add: same_name_and_label_def section16_3_group_def)

lemma group_1_cong:
  "same_name_and_label a b \<Longrightarrow>
     section16_1_group (fst a) (snd a) = section16_1_group (fst b) (snd b)"
  by (simp add: same_name_and_label_def section16_1_group_def)

lemma names_of_filter:
  assumes "list_all2 same_name_and_label fs fs'"
    and "\<And>a b. same_name_and_label a b \<Longrightarrow> key a = key b"
  shows "map fst (filter (\<lambda>item. key item = k) fs) = map fst (filter (\<lambda>item. key item = k) fs')"
  using assms(1)
proof (induction rule: list_all2_induct)
  case Nil
  then show ?case by simp
next
  case (Cons a as b bs)
  then show ?case
    using assms(2) [of a b] by (simp add: same_name_and_label_def)
qed

text \<open>
  C9 (as amended). The group that \<^verbatim>\<open>analyze_section16_3_fields\<close> and
  \<^verbatim>\<open>analyze_section16_1_fields\<close> give a field is a function of the field's name and of
  its lower-cased label, and of nothing else: two batches that agree, item by item, on
  the names and on the labels up to case put the same names into every group, whatever
  the declared types and pages are.
\<close>

theorem group_depends_on_name_and_label_only:
  assumes "list_all2 same_name_and_label fs fs'"
  shows "map fst (dd_get (analyze_section16_3_fields fs) k)
           = map fst (dd_get (analyze_section16_3_fields fs') k)
       \<and> map fst (dd_get (analyze_section16_1_fields fs) k)
           = map fst (dd_get (analyze_section16_1_fields fs') k)"
  using names_of_filter [OF assms, of "\<lambda>item. section16_3_group (fst item) (snd item)" k]
        names_of_filter [OF assms, of "\<lambda>item. section16_1_group (fst item) (snd item)" k]
  by (simp add: analyze_3_get analyze_1_get group_3_cong group_1_cong)

theorem group_depends_on_name_and_label_only_witness:
  "list_all2 same_name_and_label
     [(i_name labelled_info, labelled_info)] [(i_name relabelled_info, relabelled_info)]
   \<and> map fst (dd_get (analyze_section16_3_fields [(i_name labelled_info, labelled_info)])
              ''person1'')
     = map fst (dd_get (analyze_section16_3_fields [(i_name relabelled_info, relabelled_info)])
              ''person1'')"
proof -
  have h: "list_all2 same_name_and_label
     [(i_name labelled_info, labelled_info)] [(i_name relabelled_info, relabelled_info)]"
    by code_simp
  show ?thesis
    using group_depends_on_name_and_label_only [OF h, of "''person1''"] h by blast
qed

text \<open>
  C9 (as stated) fails: two fields that differ in the label only are put into different
  groups, because the label is searched for \<^verbatim>\<open>entry #1\<close>.
\<close>

theorem label_decides_group_counterexample:
  "dd_get (analyze_section16_3_fields [(i_name labelled_info, labelled_info)]) ''person1''
     = [(i_name labelled_info, labelled_info)]
   \<and> dd_get (analyze_section16_3_fields
               [(i_name labelled_info, labelled_info\<lparr>i_label := ''''\<rparr>)]) ''person1'' = []
   \<and> dd_get (analyze_section16_3_fields
               [(i_name labelled_info, labelled_info\<lparr>i_label := ''''\<rparr>)]) ''shared''
     = [(i_name labelled_info, labelled_info\<lparr>i_label := ''''\<rparr>)]"
  by code_simp


end
